theory Spec2Isabelle
  imports Complex_Main "HOL-Library.Multiset"
begin

section \<open>Tissue class masks: \<^verbatim>\<open>intensity_normalization/utilities/mask.py\<close>\<close>

text \<open>
  The module has two functions, \<^verbatim>\<open>fcm_class_mask\<close> (fuzzy c-means) and
  \<^verbatim>\<open>gmm_class_mask\<close> (Gaussian mixture). Both build a boolean inclusion mask, hand
  the intensities it selects to an external fitting routine (\<^verbatim>\<open>skfuzzy.cmeans\<close>,
  \<^verbatim>\<open>sklearn.mixture.GaussianMixture\<close>), order the three fitted components and
  scatter per-voxel values back into the geometry of the image.

  The fitting routines are not code of this module: they are parameters of the model, so
  every theorem holds for whatever the fitter returns. Intensities are real numbers
  (floating-point rounding and NaN are not modelled).
\<close>

subsection \<open>Arrays\<close>

text \<open>
  A numpy array is its shape and its elements in C (row-major) order. An array of shape
  \<open>S + (3,)\<close> is held as an array of shape \<open>S\<close> whose elements are the length-3
  vectors along the last axis, so \<^verbatim>\<open>mask[..., i]\<close> at the \<open>j\<close>-th voxel is
  \<open>data a ! j ! i\<close> for the model \<open>a\<close> of \<^verbatim>\<open>mask\<close>.
\<close>

record 'a ndarray =
  shape :: "nat list"
  data :: "'a list"

definition wf_ndarray :: "'a ndarray \<Rightarrow> bool" where
  "wf_ndarray a \<longleftrightarrow> length (data a) = prod_list (shape a)"

text \<open>
  The exceptions that can leave the two functions: numpy's and Python's own
  \<^verbatim>\<open>IndexError\<close>, \<^verbatim>\<open>ValueError\<close> and \<^verbatim>\<open>TypeError\<close>, raised by the array
  operations of the module, and whatever the external fitter raises, which propagates
  unchanged (the module has no \<^verbatim>\<open>try\<close>, no \<^verbatim>\<open>raise\<close> and no exception class of
  its own).
\<close>

datatype error = IndexError | ValueError | TypeError | FitterRaised string

text \<open>Sequencing of steps that may raise.\<close>

definition bind :: "error + 'a \<Rightarrow> ('a \<Rightarrow> error + 'b) \<Rightarrow> error + 'b" where
  "bind r f = (case r of Inl e \<Rightarrow> Inl e | Inr x \<Rightarrow> f x)"

text \<open>\<^verbatim>\<open>np.zeros(s)\<close> and \<^verbatim>\<open>np.zeros(s + (3,))\<close>.\<close>

definition zeros :: "nat list \<Rightarrow> real ndarray" where
  "zeros s = \<lparr>shape = s, data = replicate (prod_list s) 0\<rparr>"

definition zeros3 :: "nat list \<Rightarrow> real list ndarray" where
  "zeros3 s = \<lparr>shape = s, data = replicate (prod_list s) [0, 0, 0]\<rparr>"

text \<open>\<^verbatim>\<open>a > 0\<close>, elementwise.\<close>

definition gt0 :: "real ndarray \<Rightarrow> bool ndarray" where
  "gt0 a = \<lparr>shape = shape a, data = map (\<lambda>v. 0 < v) (data a)\<rparr>"

text \<open>
  Boolean-mask indexing \<^verbatim>\<open>a[m]\<close>. numpy lets the mask have fewer dimensions than
  the array: it then selects along the leading axes, and each true position contributes
  the whole block of \<open>a\<close> under it. Each axis of the mask must have the size of the
  corresponding axis of \<open>a\<close>, except that an axis of size 0 is not checked; a mask that
  does not fit, or has more dimensions than \<open>a\<close>, raises \<^verbatim>\<open>IndexError\<close>. The result
  has shape \<open>(k,) + a.shape[m.ndim:]\<close> for \<open>k\<close> true positions, taken in C order.
\<close>

definition select :: "'a list \<Rightarrow> bool list \<Rightarrow> 'a list" where
  "select xs bs = map fst (filter snd (zip xs bs))"

definition count_true :: "bool ndarray \<Rightarrow> nat" where
  "count_true m = length (filter (\<lambda>b. b) (data m))"

definition split_rows :: "nat \<Rightarrow> nat \<Rightarrow> 'a list \<Rightarrow> 'a list list" where
  "split_rows n sz xs = map (\<lambda>r. take sz (drop (r * sz) xs)) [0..<n]"

definition bool_mask_fits :: "nat list \<Rightarrow> nat list \<Rightarrow> bool" where
  "bool_mask_fits ms as \<longleftrightarrow>
     length ms \<le> length as \<and> list_all (\<lambda>(mi, ai). mi = 0 \<or> mi = ai) (zip ms as)"

definition bool_index :: "'a ndarray \<Rightarrow> bool ndarray \<Rightarrow> error + 'a ndarray" where
  "bool_index a m =
     (if bool_mask_fits (shape m) (shape a) then
        let rest = drop (length (shape m)) (shape a);
            blocks = split_rows (length (data m)) (prod_list rest) (data a)
        in Inr \<lparr>shape = count_true m # rest, data = concat (select blocks (data m))\<rparr>
      else Inl IndexError)"

text \<open>
  Broadcasting the value of an assignment to the shape of the indexing result: shapes
  are aligned at their last axes, a value axis must have the size of the target axis or
  size 1 (it is then repeated), missing leading axes are repeated, and extra leading
  axes of the value must have size 1. Otherwise numpy raises \<^verbatim>\<open>ValueError\<close>.
\<close>

fun broadcast :: "nat list \<Rightarrow> nat list \<Rightarrow> 'a list \<Rightarrow> 'a list" where
  "broadcast (v # vs) (t # ts) d =
     (if v = t then concat (map (broadcast vs ts) (split_rows v (prod_list vs) d))
      else concat (replicate t (broadcast vs ts d)))"
| "broadcast vs ts d = d"

definition broadcast_to :: "'a ndarray \<Rightarrow> nat list \<Rightarrow> error + 'a list" where
  "broadcast_to v ts =
     (let vs = shape v;
          extra = take (length vs - length ts) vs;
          vs' = replicate (length ts - length vs) 1 @ drop (length vs - length ts) vs
      in if list_all (\<lambda>x. x = 1) extra \<and> list_all (\<lambda>(x, t). x = t \<or> x = 1) (zip vs' ts)
         then Inr (broadcast vs' ts (data v)) else Inl ValueError)"

text \<open>A one-dimensional array.\<close>

definition vec :: "'a list \<Rightarrow> 'a ndarray" where
  "vec xs = \<lparr>shape = [length xs], data = xs\<rparr>"

text \<open>
  Boolean-mask assignment \<^verbatim>\<open>a[m] = v\<close>: the mask is checked as for indexing, the
  value is broadcast to the shape of the indexing result, and the blocks of \<open>a\<close> at the
  true positions of \<open>m\<close> are replaced in order. For a one-dimensional \<open>v\<close> and a mask
  of the shape of \<open>a\<close> this accepts one element per true position or a single element.
  (With a mask of exactly the shape of \<open>a\<close> numpy takes a fast path, which refuses a
  value of more than one dimension with \<^verbatim>\<open>TypeError\<close>.)
\<close>

fun scatter :: "bool list \<Rightarrow> 'a list \<Rightarrow> 'a list \<Rightarrow> 'a list" where
  "scatter (b # bs) (t # ts) vs =
     (if b then (case vs of [] \<Rightarrow> t # scatter bs ts [] | v # vs' \<Rightarrow> v # scatter bs ts vs')
      else t # scatter bs ts vs)"
| "scatter bs ts vs = ts"

definition bool_assign :: "'a ndarray \<Rightarrow> bool ndarray \<Rightarrow> 'a ndarray \<Rightarrow> error + 'a ndarray" where
  "bool_assign a m v =
     (if \<not> bool_mask_fits (shape m) (shape a) then Inl IndexError
      else if shape m = shape a \<and> 1 < length (shape v) then Inl TypeError
      else
        let rest = drop (length (shape m)) (shape a);
            k = count_true m
        in bind (broadcast_to v (k # rest)) (\<lambda>w.
           if k = 0 then Inr a
           else Inr (a\<lparr>data :=
                  concat (scatter (data m)
                            (split_rows (length (data m)) (prod_list rest) (data a))
                            (split_rows k (prod_list rest) w))\<rparr>)))"

text \<open>
  \<^verbatim>\<open>mask[..., i][m] = v\<close> on an array of shape \<open>S + (3,)\<close>: \<^verbatim>\<open>mask[..., i]\<close> is the
  view of shape \<open>S\<close> holding the \<open>i\<close>-th entry of every vector along the last axis,
  and the boolean-mask assignment writes through it.
\<close>

definition assign_class ::
  "real list ndarray \<Rightarrow> nat \<Rightarrow> bool ndarray \<Rightarrow> real list \<Rightarrow> error + real list ndarray" where
  "assign_class msk i m v =
     (case bool_assign \<lparr>shape = shape msk, data = map (\<lambda>r. r ! i) (data msk)\<rparr> m (vec v) of
        Inl e \<Rightarrow> Inl e
      | Inr slice \<Rightarrow> Inr (msk\<lparr>data := map2 (\<lambda>r x. r[i := x]) (data msk) (data slice)\<rparr>))"

text \<open>
  \<^verbatim>\<open>mask[m, i] = v\<close> on an array of shape \<open>S + (3,)\<close>: the integer \<open>i\<close> indexes the
  axis that follows the axes of the mask, and must be below its size
  (\<^verbatim>\<open>IndexError\<close>). For a mask with as many axes as \<open>S\<close> that axis is the last one
  and the assignment is the one above. For a mask with fewer axes, \<open>i\<close> indexes the
  next axis of \<open>S\<close>, the indexing result has shape
  \<open>(k,) + S[m.ndim + 1:] + (3,)\<close>, and in each selected block the \<open>i\<close>-th sub-block of
  vectors is replaced by the broadcast value.
\<close>

definition assign_mask_int ::
  "real list ndarray \<Rightarrow> bool ndarray \<Rightarrow> nat \<Rightarrow> real list \<Rightarrow> error + real list ndarray" where
  "assign_mask_int msk m i v =
     (let full = shape msk @ [3]; q = length (shape m) in
      if \<not> bool_mask_fits (shape m) (shape msk) \<or> full ! q \<le> i then Inl IndexError
      else if q = length (shape msk) then assign_class msk i m v
      else
        let sub = drop (Suc q) (shape msk);
            k = count_true m;
            bsz = prod_list (drop q (shape msk));
            ssz = prod_list sub
        in bind (broadcast_to (vec v) (k # sub @ [3])) (\<lambda>w.
           if k = 0 then Inr msk
           else
             let blocks = split_rows (length (data m)) bsz (data msk);
                 new = map2 (\<lambda>blk wc. take (i * ssz) blk @ split_rows ssz 3 wc
                                         @ drop (Suc i * ssz) blk)
                         (select blocks (data m)) (split_rows k (ssz * 3) w)
             in Inr (msk\<lparr>data := concat (scatter (data m) blocks new)\<rparr>)))"

text \<open>
  \<^verbatim>\<open>np.argmax\<close> of one row: the index of the first occurrence of the maximum.
\<close>

fun argmax_from :: "real list \<Rightarrow> nat \<Rightarrow> nat \<Rightarrow> real \<Rightarrow> nat" where
  "argmax_from [] i best bv = best"
| "argmax_from (x # xs) i best bv =
     (if bv < x then argmax_from xs (Suc i) i x else argmax_from xs (Suc i) best bv)"

definition argmax :: "real list \<Rightarrow> nat" where
  "argmax xs = (case xs of [] \<Rightarrow> 0 | x # r \<Rightarrow> argmax_from r 1 0 x)"

text \<open>
  \<^verbatim>\<open>np.argmax(sel, axis=1)\<close> for \<open>sel = mask[m]\<close>, of shape
  \<open>(k,) + R + (3,)\<close>. When the mask has the rank of \<open>S\<close>, \<open>R\<close> is empty, axis 1 is the
  axis of the three classes and the result has one index per selected voxel. Otherwise
  axis 1 is the first axis of \<open>R\<close>: an axis of size 0 raises \<^verbatim>\<open>ValueError\<close>, and the
  result has shape \<open>(k,) + R[1:] + (3,)\<close>.
\<close>

definition argmax_axis1 :: "real list ndarray \<Rightarrow> error + real ndarray" where
  "argmax_axis1 sel =
     (case tl (shape sel) of
        [] \<Rightarrow> Inr (vec (map (\<lambda>r. real (argmax r)) (data sel)))
      | n # sub \<Rightarrow>
          if n = 0 then Inl ValueError
          else
            let ssz = prod_list sub;
                k = hd (shape sel)
            in Inr \<lparr>shape = k # sub @ [3],
                    data = concat (map (\<lambda>blk.
                             concat (map (\<lambda>j. map (\<lambda>c.
                               real (argmax (map (\<lambda>row. row ! j ! c) (split_rows n ssz blk))))
                               [0..<3]) [0..<ssz]))
                           (split_rows k (n * ssz) (data sel)))\<rparr>)"

text \<open>
  Python's \<^verbatim>\<open>sorted(enumerate(xs), key=lambda x: x[1])\<close>, a stable sort of the
  (index, value) pairs by value, and \<^verbatim>\<open>np.argsort(xs)\<close>, the indices in that order
  (for three elements numpy's default sort is an insertion sort, which keeps equal keys
  in index order).
\<close>

definition sorted_enumerate :: "real list \<Rightarrow> (nat \<times> real) list" where
  "sorted_enumerate xs = sort_key snd (enumerate 0 xs)"

definition argsort :: "real list \<Rightarrow> nat list" where
  "argsort xs = map fst (sorted_enumerate xs)"

text \<open>
  Python's \<^verbatim>\<open>max(xs)\<close> and \<^verbatim>\<open>max(xs, key=f)\<close>: the running maximum is replaced
  only by a strictly greater item, so the first maximal item is returned; an empty
  argument raises \<^verbatim>\<open>ValueError\<close>.
\<close>

definition py_max_key :: "('a \<Rightarrow> real) \<Rightarrow> 'a list \<Rightarrow> error + 'a" where
  "py_max_key f xs =
     (case xs of [] \<Rightarrow> Inl ValueError
      | x # r \<Rightarrow> Inr (fold (\<lambda>y b. if f b < f y then y else b) r x))"

definition py_max :: "real list \<Rightarrow> error + real" where
  "py_max xs = py_max_key (\<lambda>x. x) xs"

text \<open>Python's \<^verbatim>\<open>xs[i]\<close> on a list or along the first axis: out of range raises.\<close>

definition item :: "'a list \<Rightarrow> nat \<Rightarrow> error + 'a" where
  "item xs i = (if i < length xs then Inr (xs ! i) else Inl IndexError)"

subsection \<open>The inclusion mask (lines 30-34 and 69-73)\<close>

text \<open>
  Both functions start with the same four lines:
  \<^verbatim>\<open>
  if brain_mask is not None:
      mask_data = brain_mask.get_data() > 0
  else:
      mask_data = img_data > 0
  \<close>
\<close>

definition mask_data :: "real ndarray \<Rightarrow> real ndarray option \<Rightarrow> bool ndarray" where
  "mask_data img_data brain_mask =
     (case brain_mask of Some b \<Rightarrow> gt0 b | None \<Rightarrow> gt0 img_data)"

datatype result = Scalar real | Hard "real ndarray" | Soft "real list ndarray"

subsection \<open>\<^verbatim>\<open>fcm_class_mask\<close>\<close>

text \<open>
  \<^verbatim>\<open>cmeans(data, c, m, error, maxiter)\<close> returns seven values, of which the function
  keeps the first two: the cluster centers and the membership matrix (one row per
  cluster, one column per data column). The model holds one number per center, that is
  a fit result whose array of centers has shape \<open>(c, 1)\<close>, as it has for data with a
  single feature row; centers with several features, which \<^verbatim>\<open>sorted\<close> on line 37
  cannot compare, are not represented.
\<close>

record cmeans_result =
  t1_cntr :: "real list"
  t1_mem :: "real list list"

type_synonym cmeans_fitter =
  "real list list \<Rightarrow> nat \<Rightarrow> real \<Rightarrow> real \<Rightarrow> nat \<Rightarrow> string + cmeans_result"

text \<open>
  The argument of the fitter, line 35:
  \<^verbatim>\<open>img_data[mask_data].reshape(-1, len(mask_data[mask_data]))\<close>. With \<open>k\<close> true
  positions \<^verbatim>\<open>reshape(-1, k)\<close> makes rows of \<open>k\<close> columns out of the elements of the
  selection (one row when the mask has the shape of the image), and raises
  \<^verbatim>\<open>ValueError\<close> for \<open>k = 0\<close> (the unknown dimension cannot be determined).
\<close>

definition reshape_rows :: "'a list \<Rightarrow> nat \<Rightarrow> error + 'a list list" where
  "reshape_rows xs k =
     (if k = 0 \<or> length xs mod k \<noteq> 0 then Inl ValueError
      else Inr (map (\<lambda>r. take k (drop (r * k) xs)) [0..<length xs div k]))"

definition fcm_data :: "real ndarray \<Rightarrow> real ndarray option \<Rightarrow> error + real list list" where
  "fcm_data img_data brain_mask =
     (let mask_data = mask_data img_data brain_mask in
      bind (bool_index img_data mask_data) (\<lambda>sel.
      reshape_rows (data sel) (count_true mask_data)))"

text \<open>
  Line 37: \<^verbatim>\<open>[t1_mem[i] for i, _ in sorted(enumerate(t1_cntr), key=lambda x: x[1])]\<close>.
\<close>

fun collect :: "('a \<Rightarrow> error + 'b) \<Rightarrow> 'a list \<Rightarrow> error + 'b list" where
  "collect f [] = Inr []"
| "collect f (x # xs) = bind (f x) (\<lambda>y. bind (collect f xs) (\<lambda>ys. Inr (y # ys)))"

definition t1_mem_list :: "cmeans_result \<Rightarrow> error + real list list" where
  "t1_mem_list fit = collect (\<lambda>(i, _). item (t1_mem fit) i) (sorted_enumerate (t1_cntr fit))"

text \<open>
  Lines 38-40: \<^verbatim>\<open>for i in range(3): mask[..., i][mask_data] = t1_mem_list[i]\<close>.
\<close>

fun fcm_fill ::
  "real list list \<Rightarrow> bool ndarray \<Rightarrow> nat list \<Rightarrow> real list ndarray \<Rightarrow> error + real list ndarray" where
  "fcm_fill rows m [] msk = Inr msk"
| "fcm_fill rows m (i # is) msk =
     bind (item rows i) (\<lambda>row.
     bind (assign_class msk i m row) (\<lambda>msk'.
     fcm_fill rows m is msk'))"

definition fcm_class_mask ::
  "cmeans_fitter \<Rightarrow> real ndarray \<Rightarrow> real ndarray option \<Rightarrow> bool \<Rightarrow> error + result" where
  "fcm_class_mask cmeans img_data brain_mask hard_seg =
     (let mask_data = mask_data img_data brain_mask in
      bind (fcm_data img_data brain_mask) (\<lambda>d.
      case cmeans d 3 2 (5 / 1000) 50 of
        Inl x \<Rightarrow> Inl (FitterRaised x)
      | Inr fit \<Rightarrow>
          bind (t1_mem_list fit) (\<lambda>rows.
          bind (fcm_fill rows mask_data [0..<3] (zeros3 (shape img_data))) (\<lambda>msk.
          if hard_seg then
            bind (bool_index msk mask_data) (\<lambda>sel.
            bind (argmax_axis1 sel) (\<lambda>am.
            bind (bool_assign (zeros (shape img_data)) mask_data
                    (am\<lparr>data := map (\<lambda>x. x + 1) (data am)\<rparr>)) (\<lambda>tmp_mask.
            Inr (Hard tmp_mask))))
          else Inr (Soft msk)))))"

subsection \<open>\<^verbatim>\<open>gmm_class_mask\<close>\<close>

text \<open>
  A fitted \<^verbatim>\<open>GaussianMixture(3)\<close>: the mixture weights, the component means
  (\<^verbatim>\<open>gmm.means_.T.squeeze()\<close>, the 3 x 1 array of means as a vector), and the
  methods \<^verbatim>\<open>predict\<close> (one component index per observation) and
  \<^verbatim>\<open>predict_proba\<close> (one row of posterior probabilities per observation).
\<close>

record gmm_fitted =
  weights :: "real list"
  means :: "real list"
  predict :: "real list list \<Rightarrow> nat list"
  predict_proba :: "real list list \<Rightarrow> real list list"

type_synonym gmm_fitter = "nat \<Rightarrow> real list list \<Rightarrow> string + gmm_fitted"

text \<open>
  Line 75: \<^verbatim>\<open>brain = np.expand_dims(img_data[mask_data].flatten(), 1)\<close>, a column
  of single-feature observations.
\<close>

definition gmm_brain :: "real ndarray \<Rightarrow> real ndarray option \<Rightarrow> error + real list list" where
  "gmm_brain img_data brain_mask =
     bind (bool_index img_data (mask_data img_data brain_mask)) (\<lambda>sel.
     Inr (map (\<lambda>x. [x]) (data sel)))"

text \<open>
  Lines 89-91:
  \<^verbatim>\<open>for i, c in enumerate(classes): predicted[tmp_predicted == c] = i + 1\<close>.
\<close>

definition relabel :: "nat list \<Rightarrow> nat list \<Rightarrow> real list" where
  "relabel classes tmp_predicted =
     fold (\<lambda>(i, c) predicted.
             map2 (\<lambda>t p. if t = c then real i + 1 else p) tmp_predicted predicted)
          (enumerate 0 classes) (replicate (length tmp_predicted) 0)"

text \<open>
  Lines 97-98:
  \<^verbatim>\<open>for i, c in enumerate(classes): mask[mask_data, i] = predicted_proba[:, c]\<close>.
  The column \<open>c\<close> of a two-dimensional array exists when every row has it.
\<close>

definition column :: "real list list \<Rightarrow> nat \<Rightarrow> error + real list" where
  "column rows c =
     (if \<forall>r \<in> set rows. c < length r then Inr (map (\<lambda>r. r ! c) rows) else Inl IndexError)"

fun gmm_fill ::
  "real list list \<Rightarrow> bool ndarray \<Rightarrow> (nat \<times> nat) list \<Rightarrow> real list ndarray
     \<Rightarrow> error + real list ndarray" where
  "gmm_fill proba m [] msk = Inr msk"
| "gmm_fill proba m ((i, c) # ics) msk =
     bind (column proba c) (\<lambda>col.
     bind (assign_mask_int msk m i col) (\<lambda>msk'.
     gmm_fill proba m ics msk'))"

definition gmm_class_mask ::
  "gmm_fitter \<Rightarrow> real ndarray \<Rightarrow> real ndarray option \<Rightarrow> string \<Rightarrow> bool \<Rightarrow> bool
     \<Rightarrow> error + result" where
  "gmm_class_mask fit img_data brain_mask contrast return_wm_peak hard_seg =
     (let mask_data = mask_data img_data brain_mask in
      bind (gmm_brain img_data brain_mask) (\<lambda>brain.
      case fit 3 brain of
        Inl x \<Rightarrow> Inl (FitterRaised x)
      | Inr gmm \<Rightarrow>
          if return_wm_peak then
            bind (if contrast = ''t1'' then py_max (means gmm)
                  else bind (py_max_key snd (zip (means gmm) (weights gmm)))
                         (\<lambda>p. Inr (fst p))) (\<lambda>wm_peak.
            Inr (Scalar wm_peak))
          else
            let classes = argsort (weights gmm) in
            if hard_seg then
              let predicted = relabel classes (predict gmm brain) in
              bind (bool_assign (zeros (shape img_data)) mask_data
                      (vec (map (\<lambda>p. p + 1) predicted))) (\<lambda>msk.
              Inr (Hard msk))
            else
              bind (gmm_fill (predict_proba gmm brain) mask_data (enumerate 0 classes)
                      (zeros3 (shape img_data))) (\<lambda>msk.
              Inr (Soft msk))))"

subsection \<open>Notions used in the statements\<close>

text \<open>
  The position of voxel \<open>j\<close> among the included voxels: the number of true entries of
  the mask before \<open>j\<close>. The fitter's \<open>n\<close>-th column belongs to the included voxel with
  this position \<open>n\<close>.
\<close>

definition masked_index :: "bool ndarray \<Rightarrow> nat \<Rightarrow> nat" where
  "masked_index m j = length (filter (\<lambda>b. b) (take j (data m)))"

text \<open>
  Well-formed input: the arrays hold as many elements as their shapes say, and a brain
  mask, when supplied, has the shape of the image.
\<close>

definition wf_input :: "real ndarray \<Rightarrow> real ndarray option \<Rightarrow> bool" where
  "wf_input img_data brain_mask \<longleftrightarrow>
     wf_ndarray img_data \<and>
     (case brain_mask of None \<Rightarrow> True
      | Some b \<Rightarrow> wf_ndarray b \<and> shape b = shape img_data)"

text \<open>
  The membership values of the \<open>n\<close>-th included voxel, clusters in the order of
  \<^verbatim>\<open>sorted(enumerate(t1_cntr), key=lambda x: x[1])\<close>.
\<close>

definition ordered_memberships :: "cmeans_result \<Rightarrow> nat \<Rightarrow> real list" where
  "ordered_memberships fit n = map (\<lambda>c. t1_mem fit ! c ! n) (argsort (t1_cntr fit))"

text \<open>A small image and stand-ins for the fitters, for the concrete instances below.\<close>

definition toy_img :: "real ndarray" where
  "toy_img = \<lparr>shape = [2, 2], data = [0, 10, 20, 30]\<rparr>"

definition toy_fit :: cmeans_result where
  "toy_fit = \<lparr>t1_cntr = [20, 10, 30],
       t1_mem = [[1/10, 8/10, 1/10], [8/10, 1/10, 1/10], [1/10, 1/10, 8/10]]\<rparr>"

definition toy_cmeans :: cmeans_fitter where
  "toy_cmeans d c m e maxiter =
     (if d = [] \<or> [] \<in> set d then Inl ''empty data'' else Inr toy_fit)"

text \<open>
  A fitted mixture for the same image, and a fitter that rejects an empty sample as
  \<^verbatim>\<open>GaussianMixture.fit\<close> does.
\<close>

definition toy_gmm_fitted :: gmm_fitted where
  "toy_gmm_fitted =
     \<lparr>weights = [1/2, 1/4, 1/4], means = [20, 10, 30],
      predict = map (\<lambda>x. if hd x < 15 then 1 else if hd x < 25 then 0 else 2),
      predict_proba = map (\<lambda>x. if hd x < 15 then [1/10, 8/10, 1/10]
                               else if hd x < 25 then [8/10, 1/10, 1/10]
                               else [1/10, 1/10, 8/10])\<rparr>"

definition toy_gmm :: gmm_fitter where
  "toy_gmm n brain = (if brain = [] then Inl ''no samples'' else Inr toy_gmm_fitted)"

text \<open>A fitted mixture in which two components share the maximal weight.\<close>

definition tied_gmm_fitted :: gmm_fitted where
  "tied_gmm_fitted =
     \<lparr>weights = [1/4, 3/8, 3/8], means = [10, 20, 30],
      predict = map (\<lambda>x. if hd x < 15 then 0 else if hd x < 25 then 1 else 2),
      predict_proba = map (\<lambda>x. if hd x < 15 then [8/10, 1/10, 1/10]
                               else if hd x < 25 then [1/10, 8/10, 1/10]
                               else [1/10, 1/10, 8/10])\<rparr>"

definition tied_gmm :: gmm_fitter where
  "tied_gmm n brain = (if brain = [] then Inl ''no samples'' else Inr tied_gmm_fitted)"

text \<open>
  An image without a positive voxel, a fitter that accepts any sample, and an image
  with a brain mask of another shape.
\<close>

definition dark_img :: "real ndarray" where
  "dark_img = \<lparr>shape = [2], data = [0, 0]\<rparr>"

definition lenient_gmm :: gmm_fitter where
  "lenient_gmm n brain = Inr toy_gmm_fitted"

definition short_img :: "real ndarray" where
  "short_img = \<lparr>shape = [2], data = [1, 2]\<rparr>"

definition long_mask :: "real ndarray" where
  "long_mask = \<lparr>shape = [3], data = [1, 1, 1]\<rparr>"

text \<open>
  Brain masks that numpy accepts for an image of another shape: one with fewer
  dimensions, for the rows of the 2 x 2 image, and one without elements.
\<close>

definition row_mask :: "real ndarray" where
  "row_mask = \<lparr>shape = [2], data = [0, 1]\<rparr>"

definition void_mask :: "real ndarray" where
  "void_mask = \<lparr>shape = [0], data = []\<rparr>"

text \<open>
  Permuting the raw component order of a fitted model: component \<open>i\<close> of the permuted
  model is component \<open>p ! i\<close> of the original one. Centers and membership rows move
  together; weights, means and probability columns move together, and a predicted label
  \<open>c\<close> becomes the position of \<open>c\<close> in \<open>p\<close>.
\<close>

definition permute_cmeans :: "nat list \<Rightarrow> cmeans_result \<Rightarrow> cmeans_result" where
  "permute_cmeans p fit =
     \<lparr>t1_cntr = map ((!) (t1_cntr fit)) p, t1_mem = map ((!) (t1_mem fit)) p\<rparr>"

definition position :: "nat list \<Rightarrow> nat \<Rightarrow> nat" where
  "position p c = length (takeWhile (\<lambda>x. x \<noteq> c) p)"

definition permute_gmm :: "nat list \<Rightarrow> gmm_fitted \<Rightarrow> gmm_fitted" where
  "permute_gmm p gmm =
     \<lparr>weights = map ((!) (weights gmm)) p, means = map ((!) (means gmm)) p,
      predict = (\<lambda>brain. map (position p) (predict gmm brain)),
      predict_proba = (\<lambda>brain. map (\<lambda>row. map ((!) row) p) (predict_proba gmm brain))\<rparr>"

text \<open>
  Fitted models with two tied components and their permuted versions, and permuted
  versions of models whose components are all distinct.
\<close>

definition tied_gmm_swapped :: gmm_fitter where
  "tied_gmm_swapped n brain =
     (if brain = [] then Inl ''no samples'' else Inr (permute_gmm [0, 2, 1] tied_gmm_fitted))"

definition tied_fit :: cmeans_result where
  "tied_fit = \<lparr>t1_cntr = [10, 25, 25],
       t1_mem = [[8/10, 1/10, 1/10], [1/10, 6/10, 3/10], [1/10, 3/10, 6/10]]\<rparr>"

definition tied_cmeans :: cmeans_fitter where
  "tied_cmeans d c m e maxiter =
     (if d = [] \<or> [] \<in> set d then Inl ''empty data'' else Inr tied_fit)"

definition tied_cmeans_swapped :: cmeans_fitter where
  "tied_cmeans_swapped d c m e maxiter =
     (if d = [] \<or> [] \<in> set d then Inl ''empty data''
      else Inr (permute_cmeans [0, 2, 1] tied_fit))"

definition toy_cmeans_rotated :: cmeans_fitter where
  "toy_cmeans_rotated d c m e maxiter =
     (if d = [] \<or> [] \<in> set d then Inl ''empty data''
      else Inr (permute_cmeans [2, 0, 1] toy_fit))"

definition plain_gmm_fitted :: gmm_fitted where
  "plain_gmm_fitted =
     \<lparr>weights = [1/2, 1/5, 3/10], means = [20, 10, 30],
      predict = map (\<lambda>x. if hd x < 15 then 1 else if hd x < 25 then 0 else 2),
      predict_proba = map (\<lambda>x. if hd x < 15 then [1/10, 8/10, 1/10]
                               else if hd x < 25 then [8/10, 1/10, 1/10]
                               else [1/10, 1/10, 8/10])\<rparr>"

definition plain_gmm :: gmm_fitter where
  "plain_gmm n brain = (if brain = [] then Inl ''no samples'' else Inr plain_gmm_fitted)"

definition plain_gmm_rotated :: gmm_fitter where
  "plain_gmm_rotated n brain =
     (if brain = [] then Inl ''no samples'' else Inr (permute_gmm [2, 0, 1] plain_gmm_fitted))"

section \<open>Properties\<close>

subsection \<open>Selecting and scattering\<close>

lemma length_select:
  "length xs = length bs \<Longrightarrow> length (select xs bs) = length (filter (\<lambda>b. b) bs)"
  by (induction xs bs rule: list_induct2) (simp_all add: select_def)

lemma select_Cons:
  "select (x # xs) (b # bs) = (if b then x # select xs bs else select xs bs)"
  by (simp add: select_def)

lemma select_nth:
  "length xs = length bs \<Longrightarrow> j < length bs \<Longrightarrow> bs ! j \<Longrightarrow>
   select xs bs ! length (filter (\<lambda>b. b) (take j bs)) = xs ! j"
proof (induction xs bs arbitrary: j rule: list_induct2)
  case Nil
  then show ?case by simp
next
  case (Cons x xs b bs)
  then show ?case by (cases j) (simp_all add: select_Cons)
qed

lemma length_scatter: "length (scatter bs ts vs) = length ts"
  by (induction bs ts vs rule: scatter.induct) (simp_all split: list.splits)

lemma scatter_nth:
  "length bs = length ts \<Longrightarrow> length (filter (\<lambda>b. b) bs) \<le> length vs \<Longrightarrow> j < length ts \<Longrightarrow>
   scatter bs ts vs ! j = (if bs ! j then vs ! length (filter (\<lambda>b. b) (take j bs)) else ts ! j)"
proof (induction bs ts vs arbitrary: j rule: scatter.induct)
  case (1 b bs t ts vs)
  show ?case
  proof (cases j)
    case 0
    with "1.prems" show ?thesis by (cases vs) (auto split: if_splits)
  next
    case (Suc j')
    with "1.prems" show ?thesis
      using "1.IH"(2)[of _ _ j'] "1.IH"(3)[of j']
      by (cases vs) (auto split: if_splits)
  qed
qed simp_all

lemma filter_take_less:
  "j < length bs \<Longrightarrow> bs ! j \<Longrightarrow> length (filter (\<lambda>b. b) (take j bs)) < length (filter (\<lambda>b. b) bs)"
proof (induction bs arbitrary: j)
  case Nil
  then show ?case by simp
next
  case (Cons b bs)
  show ?case
  proof (cases j)
    case 0
    with Cons.prems show ?thesis by simp
  next
    case (Suc j')
    with Cons.prems Cons.IH[of j'] show ?thesis by auto
  qed
qed

subsection \<open>The array operations for a mask of the shape of the array\<close>

lemma split_rows_single: "split_rows (length xs) (Suc 0) xs = map (\<lambda>x. [x]) xs"
  unfolding split_rows_def
  by (rule nth_equalityI) (simp_all add: take_Suc_conv_app_nth)

lemma bool_mask_fits_refl: "bool_mask_fits s s"
  by (induction s) (simp_all add: bool_mask_fits_def)

lemma concat_select_single: "concat (select (map (\<lambda>x. [x]) xs) bs) = select xs bs"
proof (induction xs arbitrary: bs)
  case Nil
  then show ?case by (simp add: select_def)
next
  case (Cons x xs)
  then show ?case by (cases bs) (simp_all add: select_def)
qed

lemma bool_index_same:
  assumes "shape m = shape a" and "length (data m) = length (data a)"
  shows "bool_index a m = Inr \<lparr>shape = [count_true m], data = select (data a) (data m)\<rparr>"
  using assms
  by (simp add: bool_index_def bool_mask_fits_refl split_rows_single concat_select_single)

lemma broadcast_to_vec:
  "broadcast_to (vec v) [k] =
     (if length v = k then Inr v
      else if length v = 1 then Inr (replicate k (hd v)) else Inl ValueError)"
proof -
  have a: "concat (split_rows (length v) (Suc 0) v) = v"
    by (simp add: split_rows_single)
  have b: "length v = 1 \<Longrightarrow> concat (replicate k v) = replicate k (hd v)"
  proof -
    assume "length v = 1"
    then obtain x where "v = [x]" by (cases v) simp_all
    then show ?thesis by (induction k) simp_all
  qed
  have c: "map (broadcast [] []) xss = xss" for xss :: "'a list list"
    by (induction xss) simp_all
  show ?thesis
    using a b by (auto simp: broadcast_to_def vec_def c)
qed

lemma scatter_no_true: "filter (\<lambda>b. b) bs = [] \<Longrightarrow> scatter bs ts vs = ts"
  by (induction bs ts vs rule: scatter.induct) (auto split: if_splits)

lemma scatter_singletons:
  "concat (scatter bs (map (\<lambda>x. [x]) ts) (map (\<lambda>x. [x]) vs)) = scatter bs ts vs"
  by (induction bs ts vs rule: scatter.induct) (auto split: list.splits)

lemma bool_assign_same:
  assumes "shape m = shape a" and "length (data m) = length (data a)"
  shows "bool_assign a m (vec v) =
     (if length v = count_true m then Inr (a\<lparr>data := scatter (data m) (data a) v\<rparr>)
      else if length v = 1
        then Inr (a\<lparr>data := scatter (data m) (data a) (replicate (count_true m) (hd v))\<rparr>)
      else Inl ValueError)"
proof -
  let ?put = "\<lambda>w. if count_true m = 0 then Inr a
       else Inr (a\<lparr>data :=
              concat (scatter (data m) (split_rows (length (data m)) (Suc 0) (data a))
                        (split_rows (count_true m) (Suc 0) w))\<rparr>)"
  have put: "?put w = (Inr (a\<lparr>data := scatter (data m) (data a) w\<rparr>) :: error + 'a ndarray)"
    if "length w = count_true m" for w
  proof (cases "count_true m = 0")
    case True
    then show ?thesis by (simp add: count_true_def scatter_no_true)
  next
    case False
    have "split_rows (length (data m)) (Suc 0) (data a) = map (\<lambda>x. [x]) (data a)"
      using split_rows_single[of "data a"] assms(2) by simp
    moreover have "split_rows (count_true m) (Suc 0) w = map (\<lambda>x. [x]) w"
      using split_rows_single[of w] that by simp
    ultimately show ?thesis using False by (simp add: scatter_singletons)
  qed
  have run: "bool_assign a m (vec v) = bind (broadcast_to (vec v) [count_true m]) ?put"
    using assms(1)
    by (simp add: bool_assign_def bool_mask_fits_refl vec_def Let_def cong: if_cong)
  show ?thesis
  proof (cases "length v = count_true m")
    case True
    then show ?thesis
      unfolding run broadcast_to_vec using put[of v] by (simp add: bind_def)
  next
    case False
    show ?thesis
    proof (cases "length v = 1")
      case True
      have "bind (Inr (replicate (count_true m) (hd v))) ?put =
          Inr (a\<lparr>data := scatter (data m) (data a) (replicate (count_true m) (hd v))\<rparr>)"
        unfolding bind_def sum.case by (rule put) simp
      with True False show ?thesis
        unfolding run broadcast_to_vec by simp
    next
      case F: False
      with False show ?thesis
        unfolding run broadcast_to_vec by (simp add: bind_def)
    qed
  qed
qed

lemma assign_mask_int_same:
  assumes "shape m = shape msk"
  shows "assign_mask_int msk m i v =
     (if i < 3 then assign_class msk i m v else Inl IndexError)"
  using assms by (auto simp: assign_mask_int_def bool_mask_fits_refl Let_def nth_append)

lemma argmax_axis1_flat:
  "shape sel = [k] \<Longrightarrow> argmax_axis1 sel = Inr (vec (map (\<lambda>r. real (argmax r)) (data sel)))"
  by (simp add: argmax_axis1_def)

subsection \<open>Filling the class arrays\<close>

lemma mask_data_shape: "wf_input img bm \<Longrightarrow> shape (mask_data img bm) = shape img"
  by (cases bm) (simp_all add: wf_input_def mask_data_def gt0_def)

lemma mask_data_length:
  "wf_input img bm \<Longrightarrow> length (data (mask_data img bm)) = length (data img)"
  by (cases bm) (simp_all add: wf_input_def mask_data_def gt0_def wf_ndarray_def)

lemma masked_index_less:
  "j < length (data m) \<Longrightarrow> data m ! j \<Longrightarrow> masked_index m j < count_true m"
  by (simp add: masked_index_def count_true_def filter_take_less)

lemma bool_assign_exact:
  "shape m = shape a \<Longrightarrow> length (data m) = length (data a) \<Longrightarrow> length v = count_true m \<Longrightarrow>
   bool_assign a m (vec v) = Inr (a\<lparr>data := scatter (data m) (data a) v\<rparr>)"
  by (simp add: bool_assign_same)

lemma assign_class_step:
  assumes "shape m = shape a" and "length (data m) = length (data a)"
    and "length v = count_true m"
  shows "\<exists>a'. assign_class a i m v = Inr a' \<and> shape a' = shape a \<and>
           length (data a') = length (data a) \<and>
           (\<forall>j<length (data a). data a' ! j =
              (if data m ! j then (data a ! j)[i := v ! masked_index m j] else data a ! j))"
proof -
  let ?sl = "scatter (data m) (map (\<lambda>r. r ! i) (data a)) v"
  let ?a' = "a\<lparr>data := map2 (\<lambda>r x. r[i := x]) (data a) ?sl\<rparr>"
  have "assign_class a i m v = Inr ?a'"
    using assms by (simp add: assign_class_def bool_assign_exact)
  moreover have "length ?sl = length (data a)"
    by (simp add: length_scatter)
  moreover have "data ?a' ! j =
      (if data m ! j then (data a ! j)[i := v ! masked_index m j] else data a ! j)"
    if "j < length (data a)" for j
  proof -
    have "?sl ! j = (if data m ! j then v ! masked_index m j else data a ! j ! i)"
      using assms that scatter_nth[of "data m" "map (\<lambda>r. r ! i) (data a)" v j]
      by (simp add: masked_index_def count_true_def)
    with that \<open>length ?sl = length (data a)\<close> show ?thesis by simp
  qed
  ultimately show ?thesis by simp
qed

lemma assign_class_keeps:
  assumes "shape m = shape a" and "length (data m) = length (data a)"
    and "assign_class a i m v = Inr a'"
  shows "shape a' = shape a \<and> length (data a') = length (data a)"
proof -
  let ?sl = "\<lparr>shape = shape a, data = map (\<lambda>r. r ! i) (data a)\<rparr>"
  have "bool_assign ?sl m (vec v) =
     (if length v = count_true m then Inr (?sl\<lparr>data := scatter (data m) (data ?sl) v\<rparr>)
      else if length v = 1
        then Inr (?sl\<lparr>data := scatter (data m) (data ?sl) (replicate (count_true m) (hd v))\<rparr>)
      else Inl ValueError)"
    using assms(1,2) by (intro bool_assign_same) simp_all
  with assms(3) show ?thesis
    by (auto simp: assign_class_def length_scatter split: if_splits)
qed

lemma three_classes:
  assumes m: "shape m = s" "length (data m) = prod_list s"
    and v: "length v0 = count_true m" "length v1 = count_true m" "length v2 = count_true m"
  shows "\<exists>a1 a2 a3. assign_class (zeros3 s) 0 m v0 = Inr a1 \<and>
           assign_class a1 1 m v1 = Inr a2 \<and> assign_class a2 2 m v2 = Inr a3 \<and>
           shape a3 = s \<and> length (data a3) = prod_list s \<and>
           (\<forall>j<prod_list s. data a3 ! j =
              (if data m ! j
               then [v0 ! masked_index m j, v1 ! masked_index m j, v2 ! masked_index m j]
               else [0, 0, 0]))"
proof -
  have z: "shape (zeros3 s) = s" "length (data (zeros3 s)) = prod_list s"
    "\<And>j. j < prod_list s \<Longrightarrow> data (zeros3 s) ! j = [0, 0, 0]"
    by (simp_all add: zeros3_def)
  from assign_class_step[of m "zeros3 s" v0 0] m v z obtain a1 where
    a1: "assign_class (zeros3 s) 0 m v0 = Inr a1" "shape a1 = s"
      "length (data a1) = prod_list s"
      "\<forall>j<prod_list s. data a1 ! j =
         (if data m ! j then [v0 ! masked_index m j, 0, 0] else [0, 0, 0])"
    by auto
  from assign_class_step[of m a1 v1 1] m v a1 obtain a2 where
    a2: "assign_class a1 1 m v1 = Inr a2" "shape a2 = s"
      "length (data a2) = prod_list s"
      "\<forall>j<prod_list s. data a2 ! j =
         (if data m ! j then [v0 ! masked_index m j, v1 ! masked_index m j, 0]
          else [0, 0, 0])"
    by auto
  from assign_class_step[of m a2 v2 2] m v a2 obtain a3 where
    a3: "assign_class a2 2 m v2 = Inr a3" "shape a3 = s"
      "length (data a3) = prod_list s"
      "\<forall>j<prod_list s. data a3 ! j =
         (if data m ! j
          then [v0 ! masked_index m j, v1 ! masked_index m j, v2 ! masked_index m j]
          else [0, 0, 0])"
    by auto
  from a1 a2 a3 show ?thesis by blast
qed

lemma upt_3: "[0..<3] = [0, 1, 2]"
  by (simp add: upt_rec)

lemma fcm_fill_three:
  assumes m: "shape m = s" "length (data m) = prod_list s"
    and rows: "3 \<le> length rows" "\<forall>c<3. length (rows ! c) = count_true m"
  shows "\<exists>out. fcm_fill rows m [0..<3] (zeros3 s) = Inr out \<and>
           shape out = s \<and> length (data out) = prod_list s \<and>
           (\<forall>j<prod_list s. data out ! j =
              (if data m ! j
               then [rows ! 0 ! masked_index m j, rows ! 1 ! masked_index m j,
                     rows ! 2 ! masked_index m j]
               else [0, 0, 0]))"
proof -
  from rows have "length (rows ! 0) = count_true m" "length (rows ! 1) = count_true m"
    "length (rows ! 2) = count_true m" by simp_all
  from three_classes[OF m this] obtain a1 a2 a3 where
    a: "assign_class (zeros3 s) 0 m (rows ! 0) = Inr a1"
      "assign_class a1 1 m (rows ! 1) = Inr a2"
      "assign_class a2 2 m (rows ! 2) = Inr a3"
    and r: "shape a3 = s" "length (data a3) = prod_list s"
      "\<forall>j<prod_list s. data a3 ! j =
         (if data m ! j
          then [rows ! 0 ! masked_index m j, rows ! 1 ! masked_index m j,
                rows ! 2 ! masked_index m j]
          else [0, 0, 0])"
    by blast
  from rows(1) a have "fcm_fill rows m [0..<3] (zeros3 s) = Inr a3"
    by (auto simp: upt_3 bind_def item_def)
  with r show ?thesis by blast
qed

lemma column_exact:
  "\<forall>r\<in>set rows. c < length r \<Longrightarrow> column rows c = Inr (map (\<lambda>r. r ! c) rows)"
  by (simp add: column_def)

lemma gmm_fill_three:
  assumes m: "shape m = s" "length (data m) = prod_list s"
    and p: "length proba = count_true m" "\<forall>r\<in>set proba. length r = 3"
    and c: "c0 < 3" "c1 < 3" "c2 < 3"
  shows "\<exists>out. gmm_fill proba m (enumerate 0 [c0, c1, c2]) (zeros3 s) = Inr out \<and>
           shape out = s \<and> length (data out) = prod_list s \<and>
           (\<forall>j<prod_list s. data out ! j =
              (if data m ! j
               then [proba ! masked_index m j ! c0, proba ! masked_index m j ! c1,
                     proba ! masked_index m j ! c2]
               else [0, 0, 0]))"
proof -
  let ?col = "\<lambda>c. map (\<lambda>r. r ! c) proba"
  have col: "column proba c0 = Inr (?col c0)" "column proba c1 = Inr (?col c1)"
    "column proba c2 = Inr (?col c2)"
    using p(2) c by (simp_all add: column_exact)
  have len: "length (?col c0) = count_true m" "length (?col c1) = count_true m"
    "length (?col c2) = count_true m"
    using p(1) by simp_all
  from three_classes[OF m len] obtain a1 a2 a3 where
    a: "assign_class (zeros3 s) 0 m (?col c0) = Inr a1"
      "assign_class a1 1 m (?col c1) = Inr a2"
      "assign_class a2 2 m (?col c2) = Inr a3"
    and r: "shape a3 = s" "length (data a3) = prod_list s"
      "\<forall>j<prod_list s. data a3 ! j =
         (if data m ! j
          then [?col c0 ! masked_index m j, ?col c1 ! masked_index m j,
                ?col c2 ! masked_index m j]
          else [0, 0, 0])"
    by blast
  have e: "enumerate 0 [c0, c1, c2] = [(0, c0), (1, c1), (2, c2)]"
    by (simp add: numeral_2_eq_2)
  have z: "shape m = shape (zeros3 s)" "length (data m) = length (data (zeros3 s))"
    using m by (simp_all add: zeros3_def)
  from assign_class_keeps[OF z a(1)] z
  have k1: "shape m = shape a1" "length (data m) = length (data a1)" by simp_all
  from assign_class_keeps[OF k1 a(2)] k1
  have k2: "shape m = shape a2" by simp
  from a col have "gmm_fill proba m (enumerate 0 [c0, c1, c2]) (zeros3 s) = Inr a3"
    unfolding e
    by (simp add: bind_def assign_mask_int_same[OF z(1)] assign_mask_int_same[OF k1(1)]
        assign_mask_int_same[OF k2])
  moreover have "data a3 ! j =
      (if data m ! j
       then [proba ! masked_index m j ! c0, proba ! masked_index m j ! c1,
             proba ! masked_index m j ! c2]
       else [0, 0, 0])" if "j < prod_list s" for j
  proof (cases "data m ! j")
    case True
    with that m have "masked_index m j < length proba"
      using masked_index_less[of j m] p(1) by simp
    with r(3) that True show ?thesis by simp
  next
    case False
    with r(3) that show ?thesis by simp
  qed
  ultimately show ?thesis using r(1,2) by blast
qed

subsection \<open>\<^verbatim>\<open>fcm_class_mask\<close>, ordering and hard segmentation\<close>

lemma length_argsort: "length (argsort w) = length w"
  by (simp add: argsort_def sorted_enumerate_def)

lemma mset_argsort: "mset (argsort w) = mset [0..<length w]"
proof -
  have "mset (argsort w) = image_mset fst (mset (sort_key snd (enumerate 0 w)))"
    by (simp add: argsort_def sorted_enumerate_def)
  also have "\<dots> = mset (map fst (enumerate 0 w))"
    by (simp only: mset_sort mset_map)
  also have "\<dots> = mset [0..<length w]"
    by (simp only: map_fst_enumerate add_0)
  finally show ?thesis .
qed

lemma set_argsort: "set (argsort w) = {0..<length w}"
  using mset_eq_setD[OF mset_argsort, of w] by simp

lemma distinct_argsort: "distinct (argsort w)"
  using mset_eq_imp_distinct_iff[OF mset_argsort, of w] by simp

lemma nth_argsort_less: "r < length w \<Longrightarrow> argsort w ! r < length w"
  using set_argsort[of w] nth_mem[of r "argsort w"] by (simp add: length_argsort)

lemma sorted_argsort: "sorted (map ((!) w) (argsort w))"
proof -
  have "map ((!) w) (argsort w) = map snd (sort_key snd (enumerate 0 w))"
    by (auto simp: argsort_def sorted_enumerate_def in_set_enumerate_eq)
  then show ?thesis by simp
qed

lemma collect_map: "\<forall>x\<in>set xs. f x = Inr (g x) \<Longrightarrow> collect f xs = Inr (map g xs)"
  by (induction xs) (simp_all add: bind_def)

lemma t1_mem_list_exact:
  assumes "length (t1_cntr fit) \<le> length (t1_mem fit)"
  shows "t1_mem_list fit = Inr (map ((!) (t1_mem fit)) (argsort (t1_cntr fit)))"
proof -
  have "\<forall>p\<in>set (sorted_enumerate (t1_cntr fit)).
          (case p of (i, _) \<Rightarrow> item (t1_mem fit) i) = Inr (t1_mem fit ! fst p)"
    using assms by (auto simp: sorted_enumerate_def in_set_enumerate_eq item_def)
  then have "t1_mem_list fit =
      Inr (map (\<lambda>p. t1_mem fit ! fst p) (sorted_enumerate (t1_cntr fit)))"
    unfolding t1_mem_list_def by (rule collect_map)
  then show ?thesis by (simp add: argsort_def comp_def)
qed

lemma argmax_from_bound:
  "best < i \<Longrightarrow> argmax_from xs i best bv < i + length xs"
  by (induction xs i best bv rule: argmax_from.induct) (auto simp: less_Suc_eq)

lemma argmax_less: "0 < length xs \<Longrightarrow> argmax xs < length xs"
  using argmax_from_bound[of 0 1] by (cases xs) (simp_all add: argmax_def)

text \<open>
  \<open>argmax\<close> is the index of the first maximal element, as \<^verbatim>\<open>np.argmax\<close> is.
\<close>

lemma argmax_from_first:
  assumes "best < length pre" and "bv = pre ! best"
    and "\<forall>j<length pre. pre ! j \<le> bv" and "\<forall>j<best. pre ! j < bv"
  shows "argmax_from xs (length pre) best bv < length (pre @ xs) \<and>
         (\<forall>j<length (pre @ xs). (pre @ xs) ! j \<le> (pre @ xs) ! argmax_from xs (length pre) best bv) \<and>
         (\<forall>j<argmax_from xs (length pre) best bv.
            (pre @ xs) ! j < (pre @ xs) ! argmax_from xs (length pre) best bv)"
  using assms
proof (induction xs arbitrary: pre best bv)
  case Nil
  then show ?case by simp
next
  case (Cons x xs)
  define qs where "qs = pre @ [x]"
  have q: "pre @ x # xs = qs @ xs" "length qs = Suc (length pre)"
    "qs ! length pre = x" "\<And>j. j < length pre \<Longrightarrow> qs ! j = pre ! j"
    by (simp_all add: qs_def nth_append)
  show ?case
  proof (cases "bv < x")
    case True
    have "\<forall>j<length qs. qs ! j \<le> x"
    proof (intro allI impI)
      fix j assume "j < length qs"
      then have "j < length pre \<or> j = length pre" using q(2) by auto
      then show "qs ! j \<le> x"
        using q(3,4) Cons.prems(3) True by (auto intro: less_imp_le le_less_trans)
    qed
    moreover have "\<forall>j<length pre. qs ! j < x"
      using q(4) Cons.prems(3) True by (auto intro: le_less_trans)
    ultimately have "argmax_from xs (length qs) (length pre) x < length (qs @ xs) \<and>
         (\<forall>j<length (qs @ xs). (qs @ xs) ! j \<le> (qs @ xs) ! argmax_from xs (length qs) (length pre) x) \<and>
         (\<forall>j<argmax_from xs (length qs) (length pre) x.
            (qs @ xs) ! j < (qs @ xs) ! argmax_from xs (length qs) (length pre) x)"
      using Cons.IH[of "length pre" qs x] q(2,3) by simp
    then show ?thesis using True unfolding q(1) q(2) by simp
  next
    case False
    have "\<forall>j<length qs. qs ! j \<le> bv"
    proof (intro allI impI)
      fix j assume "j < length qs"
      then have "j < length pre \<or> j = length pre" using q(2) by auto
      then show "qs ! j \<le> bv"
        using q(3,4) Cons.prems(3) False by auto
    qed
    moreover have "\<forall>j<best. qs ! j < bv"
      using q(4) Cons.prems(1,4) by simp
    moreover have "best < length qs" "bv = qs ! best"
      using Cons.prems(1,2) q(2,4) by simp_all
    ultimately have "argmax_from xs (length qs) best bv < length (qs @ xs) \<and>
         (\<forall>j<length (qs @ xs). (qs @ xs) ! j \<le> (qs @ xs) ! argmax_from xs (length qs) best bv) \<and>
         (\<forall>j<argmax_from xs (length qs) best bv.
            (qs @ xs) ! j < (qs @ xs) ! argmax_from xs (length qs) best bv)"
      using Cons.IH[of best qs bv] by simp
    then show ?thesis using False unfolding q(1) q(2) by simp
  qed
qed

lemma argmax_first_maximum:
  assumes "xs \<noteq> []"
  shows "argmax xs < length xs \<and> (\<forall>j<length xs. xs ! j \<le> xs ! argmax xs) \<and>
         (\<forall>j<argmax xs. xs ! j < xs ! argmax xs)"
proof -
  from assms obtain x r where xs: "xs = x # r" by (cases xs) auto
  from argmax_from_first[of 0 "[x]" x r] show ?thesis
    by (simp add: xs argmax_def)
qed

lemma hard_steps:
  assumes "shape m = shape out" and "length (data m) = length (data out)"
  shows "bind (bool_index out m) (\<lambda>sel.
         bind (argmax_axis1 sel) (\<lambda>am.
         bind (bool_assign z m (am\<lparr>data := map (\<lambda>x. x + 1) (data am)\<rparr>)) k)) =
         bind (bool_assign z m
                 (vec (map (\<lambda>r. real (argmax r) + 1) (select (data out) (data m))))) k"
proof -
  let ?sel = "\<lparr>shape = [count_true m], data = select (data out) (data m)\<rparr>"
  have "bool_index out m = Inr ?sel"
    using assms by (rule bool_index_same)
  moreover have "argmax_axis1 ?sel = Inr (vec (map (\<lambda>r. real (argmax r)) (data ?sel)))"
    by (rule argmax_axis1_flat) simp
  moreover have "(vec (map (\<lambda>r. real (argmax r)) xs))\<lparr>data :=
        map (\<lambda>x. x + 1) (data (vec (map (\<lambda>r. real (argmax r)) xs)))\<rparr> =
      vec (map (\<lambda>r. real (argmax r) + 1) xs)" for xs
    by (simp add: vec_def)
  ultimately show ?thesis by (simp add: bind_def)
qed

lemma hard_from_classes:
  assumes m: "shape m = s" "length (data m) = prod_list s"
    and out: "shape out = s" "length (data out) = prod_list s"
  shows "\<exists>h. bind (bool_index out m) (\<lambda>sel.
              bind (argmax_axis1 sel) (\<lambda>am.
              bind (bool_assign (zeros s) m (am\<lparr>data := map (\<lambda>x. x + 1) (data am)\<rparr>))
                (\<lambda>tmp_mask. Inr (Hard tmp_mask)))) = Inr (Hard h) \<and>
           shape h = s \<and> length (data h) = prod_list s \<and>
           (\<forall>j<prod_list s. data h ! j =
              (if data m ! j then real (argmax (data out ! j)) + 1 else 0))"
proof -
  let ?f = "\<lambda>r. real (argmax r) + 1"
  let ?sel = "select (data out) (data m)"
  let ?h = "(zeros s)\<lparr>data := scatter (data m) (data (zeros s)) (map ?f ?sel)\<rparr>"
  have len: "length ?sel = count_true m"
    using m out by (simp add: length_select count_true_def)
  have asg: "bool_assign (zeros s) m (vec (map ?f ?sel)) = Inr ?h"
    using m len by (simp add: bool_assign_exact zeros_def)
  have "bind (bool_index out m) (\<lambda>sel.
      bind (argmax_axis1 sel) (\<lambda>am.
      bind (bool_assign (zeros s) m (am\<lparr>data := map (\<lambda>x. x + 1) (data am)\<rparr>))
        (\<lambda>tmp_mask. Inr (Hard tmp_mask)))) =
      bind (bool_assign (zeros s) m (vec (map ?f ?sel))) (\<lambda>tmp_mask. Inr (Hard tmp_mask))"
    using m out by (intro hard_steps) simp_all
  then have run: "bind (bool_index out m) (\<lambda>sel.
      bind (argmax_axis1 sel) (\<lambda>am.
      bind (bool_assign (zeros s) m (am\<lparr>data := map (\<lambda>x. x + 1) (data am)\<rparr>))
        (\<lambda>tmp_mask. Inr (Hard tmp_mask)))) = Inr (Hard ?h)"
    unfolding asg by (simp add: bind_def)
  have "data ?h ! j = (if data m ! j then ?f (data out ! j) else 0)"
    if j: "j < prod_list s" for j
  proof (cases "data m ! j")
    case True
    have "data ?h ! j = map ?f ?sel ! length (filter (\<lambda>b. b) (take j (data m)))"
      using m j len True
        scatter_nth[of "data m" "data (zeros s)" "map ?f ?sel" j]
      by (simp add: zeros_def count_true_def)
    also have "\<dots> = ?f (?sel ! length (filter (\<lambda>b. b) (take j (data m))))"
      using filter_take_less[of j "data m"] m j True len
      by (simp add: count_true_def)
    also have "\<dots> = ?f (data out ! j)"
      using select_nth[of "data out" "data m" j] m out j True by simp
    finally show ?thesis using True by simp
  next
    case False
    then show ?thesis
      using m j len scatter_nth[of "data m" "data (zeros s)" "map ?f ?sel" j]
      by (simp add: zeros_def count_true_def)
  qed
  moreover have "shape ?h = s" "length (data ?h) = prod_list s"
    by (simp_all add: zeros_def length_scatter)
  ultimately show ?thesis using run by blast
qed

lemma list3_nth: "length xs = 3 \<Longrightarrow> xs = [xs ! 0, xs ! 1, xs ! 2]"
  by (cases xs; cases "tl xs"; cases "tl (tl xs)") auto

lemma ordered_memberships_3:
  "length (t1_cntr fit) = 3 \<Longrightarrow>
   ordered_memberships fit n =
     [t1_mem fit ! (argsort (t1_cntr fit) ! 0) ! n, t1_mem fit ! (argsort (t1_cntr fit) ! 1) ! n,
      t1_mem fit ! (argsort (t1_cntr fit) ! 2) ! n]"
  using list3_nth[of "ordered_memberships fit n"]
  by (simp add: ordered_memberships_def length_argsort)

lemma fcm_filled:
  assumes wf: "wf_input img bm"
    and len: "length (t1_cntr fit) = 3" "length (t1_mem fit) = 3"
    and rows: "\<forall>c<3. length (t1_mem fit ! c) = count_true (mask_data img bm)"
  shows "\<exists>out. bind (t1_mem_list fit) (\<lambda>rows.
               fcm_fill rows (mask_data img bm) [0..<3] (zeros3 (shape img))) = Inr out \<and>
           shape out = shape img \<and> length (data out) = length (data img) \<and>
           (\<forall>j<length (data img). data out ! j =
              (if data (mask_data img bm) ! j
               then ordered_memberships fit (masked_index (mask_data img bm) j)
               else [0, 0, 0]))"
proof -
  let ?m = "mask_data img bm"
  let ?o = "argsort (t1_cntr fit)"
  let ?rows = "map ((!) (t1_mem fit)) ?o"
  have n: "length (data img) = prod_list (shape img)"
    using wf by (simp add: wf_input_def wf_ndarray_def)
  have m: "shape ?m = shape img" "length (data ?m) = prod_list (shape img)"
    using wf n by (simp_all add: mask_data_shape mask_data_length)
  have o: "?o ! c < 3" if "c < 3" for c
    using nth_argsort_less[of c "t1_cntr fit"] that len by simp
  have r: "3 \<le> length ?rows" "\<forall>c<3. length (?rows ! c) = count_true ?m"
    using len rows o by (simp_all add: length_argsort)
  have rc: "?rows ! c = t1_mem fit ! (?o ! c)" if "c < 3" for c
    using that len by (simp add: length_argsort)
  from fcm_fill_three[OF m r] obtain out where
    out: "fcm_fill ?rows ?m [0..<3] (zeros3 (shape img)) = Inr out"
      "shape out = shape img" "length (data out) = prod_list (shape img)"
      "\<forall>j<prod_list (shape img). data out ! j =
         (if data ?m ! j
          then [?rows ! 0 ! masked_index ?m j, ?rows ! 1 ! masked_index ?m j,
                ?rows ! 2 ! masked_index ?m j]
          else [0, 0, 0])"
    by blast
  have "t1_mem_list fit = Inr ?rows"
    using len by (simp add: t1_mem_list_exact)
  with out(1) have "bind (t1_mem_list fit) (\<lambda>rows.
      fcm_fill rows ?m [0..<3] (zeros3 (shape img))) = Inr out"
    by (simp add: bind_def)
  moreover from out(4) have "\<forall>j<length (data img). data out ! j =
      (if data ?m ! j then ordered_memberships fit (masked_index ?m j) else [0, 0, 0])"
    using rc[of 0] rc[of 1] rc[of 2] n len(1) by (simp add: ordered_memberships_3)
  ultimately show ?thesis using out(2,3) n by auto
qed

lemma fcm_class_mask_unfold:
  assumes "fcm_data img bm = Inr d" and "cmeans d 3 2 (5 / 1000) 50 = Inr fit"
    and "bind (t1_mem_list fit) (\<lambda>rows.
           fcm_fill rows (mask_data img bm) [0..<3] (zeros3 (shape img))) = Inr out"
  shows "fcm_class_mask cmeans img bm hard_seg =
     (if hard_seg then
        bind (bool_index out (mask_data img bm)) (\<lambda>sel.
        bind (argmax_axis1 sel) (\<lambda>am.
        bind (bool_assign (zeros (shape img)) (mask_data img bm)
                (am\<lparr>data := map (\<lambda>x. x + 1) (data am)\<rparr>)) (\<lambda>tmp_mask.
        Inr (Hard tmp_mask))))
      else Inr (Soft out))"
  using assms by (auto simp: fcm_class_mask_def bind_def Let_def split: sum.splits)

text \<open>
  Claim C3. In \<^verbatim>\<open>fcm_class_mask\<close> the three classes are ordered by ascending
  cluster center: the order is a permutation of the clusters along which the centers are
  sorted, and the class values of an included voxel are its memberships in that order.
  With \<^verbatim>\<open>hard_seg=True\<close> an included voxel receives 1 plus the argmax of these
  three values, a label in \<open>{1, 2, 3}\<close>, and an excluded voxel receives 0. The argmax
  is the position \<open>l\<close> of the first largest of the three values: none of them exceeds
  the value at \<open>l\<close>, and those before \<open>l\<close> are strictly smaller.
\<close>

theorem fcm_hard_seg_labels:
  assumes "wf_input img_data brain_mask"
    and "fcm_data img_data brain_mask = Inr d"
    and "cmeans d 3 2 (5 / 1000) 50 = Inr fit"
    and "length (t1_cntr fit) = 3" and "length (t1_mem fit) = 3"
    and "\<forall>c<3. length (t1_mem fit ! c) = count_true (mask_data img_data brain_mask)"
  shows "sorted (map ((!) (t1_cntr fit)) (argsort (t1_cntr fit))) \<and>
         mset (argsort (t1_cntr fit)) = mset [0..<3] \<and>
         (\<exists>soft. fcm_class_mask cmeans img_data brain_mask False = Inr (Soft soft) \<and>
            shape soft = shape img_data \<and> length (data soft) = length (data img_data) \<and>
            (\<forall>j<length (data img_data).
               data (mask_data img_data brain_mask) ! j \<longrightarrow>
               data soft ! j =
                 ordered_memberships fit (masked_index (mask_data img_data brain_mask) j))) \<and>
         (\<exists>hard. fcm_class_mask cmeans img_data brain_mask True = Inr (Hard hard) \<and>
            shape hard = shape img_data \<and> length (data hard) = length (data img_data) \<and>
            (\<forall>j<length (data img_data).
               if data (mask_data img_data brain_mask) ! j
               then data hard ! j =
                      1 + real (argmax (ordered_memberships fit
                                  (masked_index (mask_data img_data brain_mask) j))) \<and>
                    data hard ! j \<in> {1, 2, 3} \<and>
                    (\<exists>l<3. data hard ! j = 1 + real l \<and>
                       (\<forall>c<3. ordered_memberships fit
                                 (masked_index (mask_data img_data brain_mask) j) ! c
                               \<le> ordered_memberships fit
                                   (masked_index (mask_data img_data brain_mask) j) ! l) \<and>
                       (\<forall>c<l. ordered_memberships fit
                                 (masked_index (mask_data img_data brain_mask) j) ! c
                               < ordered_memberships fit
                                   (masked_index (mask_data img_data brain_mask) j) ! l))
               else data hard ! j = 0))"
proof -
  let ?m = "mask_data img_data brain_mask"
  have n: "length (data img_data) = prod_list (shape img_data)"
    using assms(1) by (simp add: wf_input_def wf_ndarray_def)
  have m: "shape ?m = shape img_data" "length (data ?m) = prod_list (shape img_data)"
    using assms(1) n by (simp_all add: mask_data_shape mask_data_length)
  from fcm_filled[OF assms(1,4,5,6)] obtain out where
    out: "bind (t1_mem_list fit) (\<lambda>rows.
            fcm_fill rows ?m [0..<3] (zeros3 (shape img_data))) = Inr out"
      "shape out = shape img_data" "length (data out) = length (data img_data)"
      "\<forall>j<length (data img_data). data out ! j =
         (if data ?m ! j then ordered_memberships fit (masked_index ?m j) else [0, 0, 0])"
    by blast
  have run: "fcm_class_mask cmeans img_data brain_mask hs =
     (if hs then
        bind (bool_index out ?m) (\<lambda>sel.
        bind (argmax_axis1 sel) (\<lambda>am.
        bind (bool_assign (zeros (shape img_data)) ?m
                (am\<lparr>data := map (\<lambda>x. x + 1) (data am)\<rparr>)) (\<lambda>tmp_mask.
        Inr (Hard tmp_mask))))
      else Inr (Soft out))" for hs
    using assms(2,3) out(1) by (rule fcm_class_mask_unfold)
  have soft: "fcm_class_mask cmeans img_data brain_mask False = Inr (Soft out)"
    using run[of False] by simp
  from hard_from_classes[OF m out(2) out(3)[unfolded n]]
  obtain h where
    h: "fcm_class_mask cmeans img_data brain_mask True = Inr (Hard h)"
      "shape h = shape img_data" "length (data h) = length (data img_data)"
      "\<forall>j<length (data img_data). data h ! j =
         (if data ?m ! j then real (argmax (data out ! j)) + 1 else 0)"
    using run[of True] n by auto
  have lab: "data h ! j = 1 + real (argmax (ordered_memberships fit (masked_index ?m j))) \<and>
      data h ! j \<in> {1, 2, 3} \<and>
      (\<exists>l<3. data h ! j = 1 + real l \<and>
         (\<forall>c<3. ordered_memberships fit (masked_index ?m j) ! c
                 \<le> ordered_memberships fit (masked_index ?m j) ! l) \<and>
         (\<forall>c<l. ordered_memberships fit (masked_index ?m j) ! c
                 < ordered_memberships fit (masked_index ?m j) ! l))"
    if "j < length (data img_data)" "data ?m ! j" for j
  proof -
    let ?r = "ordered_memberships fit (masked_index ?m j)"
    have eq: "data h ! j = 1 + real (argmax ?r)"
      using h(4) out(4) that by simp
    have l3: "length ?r = 3"
      using assms(4) by (simp add: ordered_memberships_def length_argsort)
    then have "?r \<noteq> []" by auto
    from argmax_first_maximum[OF this] l3
    have mx: "argmax ?r < 3" "\<forall>c<3. ?r ! c \<le> ?r ! argmax ?r"
      "\<forall>c<argmax ?r. ?r ! c < ?r ! argmax ?r"
      by simp_all
    from mx(1) have "argmax ?r = 0 \<or> argmax ?r = 1 \<or> argmax ?r = 2" by arith
    with eq have "data h ! j \<in> {1, 2, 3}" by auto
    moreover from eq mx have "\<exists>l<3. data h ! j = 1 + real l \<and>
         (\<forall>c<3. ?r ! c \<le> ?r ! l) \<and> (\<forall>c<l. ?r ! c < ?r ! l)"
      by blast
    ultimately show ?thesis using eq by blast
  qed
  have "sorted (map ((!) (t1_cntr fit)) (argsort (t1_cntr fit)))"
    by (rule sorted_argsort)
  moreover have "mset (argsort (t1_cntr fit)) = mset [0..<3]"
    using mset_argsort[of "t1_cntr fit"] assms(4) by simp
  moreover have "\<exists>soft. fcm_class_mask cmeans img_data brain_mask False = Inr (Soft soft) \<and>
      shape soft = shape img_data \<and> length (data soft) = length (data img_data) \<and>
      (\<forall>j<length (data img_data). data ?m ! j \<longrightarrow>
         data soft ! j = ordered_memberships fit (masked_index ?m j))"
    using soft out(2,3,4) by auto
  moreover have "\<exists>hard. fcm_class_mask cmeans img_data brain_mask True = Inr (Hard hard) \<and>
      shape hard = shape img_data \<and> length (data hard) = length (data img_data) \<and>
      (\<forall>j<length (data img_data).
         if data ?m ! j
         then data hard ! j = 1 + real (argmax (ordered_memberships fit (masked_index ?m j))) \<and>
              data hard ! j \<in> {1, 2, 3} \<and>
              (\<exists>l<3. data hard ! j = 1 + real l \<and>
                 (\<forall>c<3. ordered_memberships fit (masked_index ?m j) ! c
                         \<le> ordered_memberships fit (masked_index ?m j) ! l) \<and>
                 (\<forall>c<l. ordered_memberships fit (masked_index ?m j) ! c
                         < ordered_memberships fit (masked_index ?m j) ! l))
         else data hard ! j = 0)"
  proof -
    have "\<forall>j<length (data img_data).
        if data ?m ! j
        then data h ! j = 1 + real (argmax (ordered_memberships fit (masked_index ?m j))) \<and>
             data h ! j \<in> {1, 2, 3} \<and>
              (\<exists>l<3. data h ! j = 1 + real l \<and>
                 (\<forall>c<3. ordered_memberships fit (masked_index ?m j) ! c
                         \<le> ordered_memberships fit (masked_index ?m j) ! l) \<and>
                 (\<forall>c<l. ordered_memberships fit (masked_index ?m j) ! c
                         < ordered_memberships fit (masked_index ?m j) ! l))
        else data h ! j = 0"
    proof (intro allI impI)
      fix j assume j: "j < length (data img_data)"
      show "if data ?m ! j
        then data h ! j = 1 + real (argmax (ordered_memberships fit (masked_index ?m j))) \<and>
             data h ! j \<in> {1, 2, 3} \<and>
              (\<exists>l<3. data h ! j = 1 + real l \<and>
                 (\<forall>c<3. ordered_memberships fit (masked_index ?m j) ! c
                         \<le> ordered_memberships fit (masked_index ?m j) ! l) \<and>
                 (\<forall>c<l. ordered_memberships fit (masked_index ?m j) ! c
                         < ordered_memberships fit (masked_index ?m j) ! l))
        else data h ! j = 0"
      proof (cases "data ?m ! j")
        case True
        show ?thesis by (subst if_P[OF True]) (rule lab[OF j True])
      next
        case False
        with h(4) j show ?thesis by simp
      qed
    qed
    with h(1,2,3) show ?thesis by blast
  qed
  ultimately show ?thesis by blast
qed

lemma toy_mask: "mask_data toy_img None = \<lparr>shape = [2, 2], data = [False, True, True, True]\<rparr>"
  by (simp add: mask_data_def gt0_def toy_img_def)

lemma toy_wf: "wf_input toy_img None"
  by (simp add: wf_input_def wf_ndarray_def toy_img_def)

lemma toy_fcm_data: "fcm_data toy_img None = Inr [[10, 20, 30]]"
  by code_simp

theorem fcm_hard_seg_labels_witness:
  "wf_input toy_img None \<and> fcm_data toy_img None = Inr [[10, 20, 30]] \<and>
   toy_cmeans [[10, 20, 30]] 3 2 (5 / 1000) 50 = Inr toy_fit \<and>
   ordered_memberships toy_fit 0 = [8/10, 1/10, 1/10] \<and>
   ordered_memberships toy_fit 1 = [1/10, 8/10, 1/10] \<and>
   ordered_memberships toy_fit 2 = [1/10, 1/10, 8/10] \<and>
   (\<exists>hard. fcm_class_mask toy_cmeans toy_img None True = Inr (Hard hard) \<and>
      data hard ! 0 = 0 \<and> data hard ! 1 = 1 \<and> data hard ! 2 = 2 \<and> data hard ! 3 = 3)"
proof -
  have f: "toy_cmeans [[10, 20, 30]] 3 2 (5 / 1000) 50 = Inr toy_fit"
    by (simp add: toy_cmeans_def)
  have l: "length (t1_cntr toy_fit) = 3" "length (t1_mem toy_fit) = 3"
    by (simp_all add: toy_fit_def)
  have r: "\<forall>c<3. length (t1_mem toy_fit ! c) = count_true (mask_data toy_img None)"
    by (simp add: toy_fit_def toy_mask count_true_def nth_Cons' )
  from fcm_hard_seg_labels[of toy_img None "[[10, 20, 30]]" toy_cmeans toy_fit,
      OF toy_wf toy_fcm_data f l r] obtain hard where
    h: "fcm_class_mask toy_cmeans toy_img None True = Inr (Hard hard)"
      "\<forall>j<length (data toy_img).
         if data (mask_data toy_img None) ! j
         then data hard ! j =
                1 + real (argmax (ordered_memberships toy_fit
                            (masked_index (mask_data toy_img None) j))) \<and>
              data hard ! j \<in> {1, 2, 3} \<and>
              (\<exists>l<3. data hard ! j = 1 + real l \<and>
                 (\<forall>c<3. ordered_memberships toy_fit
                           (masked_index (mask_data toy_img None) j) ! c
                         \<le> ordered_memberships toy_fit
                             (masked_index (mask_data toy_img None) j) ! l) \<and>
                 (\<forall>c<l. ordered_memberships toy_fit
                           (masked_index (mask_data toy_img None) j) ! c
                         < ordered_memberships toy_fit
                             (masked_index (mask_data toy_img None) j) ! l))
         else data hard ! j = 0"
    by blast
  have s: "argsort (t1_cntr toy_fit) = [1, 0, 2]"
    by (simp add: argsort_def sorted_enumerate_def toy_fit_def)
  have o: "ordered_memberships toy_fit 0 = [8/10, 1/10, 1/10]"
    "ordered_memberships toy_fit (Suc 0) = [1/10, 8/10, 1/10]"
    "ordered_memberships toy_fit 2 = [1/10, 1/10, 8/10]"
    unfolding ordered_memberships_def s by (simp_all add: toy_fit_def)
  have n: "(0::nat) < length (data toy_img)" "(Suc 0) < length (data toy_img)"
    "(2::nat) < length (data toy_img)" "(3::nat) < length (data toy_img)"
    by (simp_all add: toy_img_def)
  have m0: "\<not> data (mask_data toy_img None) ! 0"
    and m1: "data (mask_data toy_img None) ! (Suc 0)"
    and m2: "data (mask_data toy_img None) ! 2"
    and m3: "data (mask_data toy_img None) ! 3"
    and i1: "masked_index (mask_data toy_img None) (Suc 0) = 0"
    and i2: "masked_index (mask_data toy_img None) 2 = Suc 0"
    and i3: "masked_index (mask_data toy_img None) 3 = 2"
    by (simp_all add: toy_mask masked_index_def numeral_3_eq_3 numeral_2_eq_2)
  have a: "argmax (ordered_memberships toy_fit 0) = 0"
    "argmax (ordered_memberships toy_fit (Suc 0)) = Suc 0"
    "argmax (ordered_memberships toy_fit 2) = 2"
    by (simp_all add: o argmax_def)
  from h(2)[rule_format, OF n(1)] m0 have "data hard ! 0 = 0"
    by simp
  moreover from h(2)[rule_format, OF n(2)] m1 have "data hard ! 1 = 1"
    by (simp add: i1 a)
  moreover from h(2)[rule_format, OF n(3)] m2 have "data hard ! 2 = 2"
    by (simp add: i2 a)
  moreover from h(2)[rule_format, OF n(4)] m3 have "data hard ! 3 = 3"
    by (simp add: i3 a)
  ultimately show ?thesis using toy_wf toy_fcm_data f h(1) o by auto
qed

subsection \<open>Relabelling predicted components\<close>

lemma relabel_step_length:
  "length p = length tmp \<Longrightarrow>
   length (fold (\<lambda>(i, c) predicted.
             map2 (\<lambda>t p. if t = c then real i + 1 else p) tmp predicted) ics p) = length tmp"
  by (induction ics arbitrary: p) (auto simp: case_prod_beta)

lemma relabel_step_keep:
  "length p = length tmp \<Longrightarrow> n < length tmp \<Longrightarrow> tmp ! n \<notin> snd ` set ics \<Longrightarrow>
   fold (\<lambda>(i, c) predicted.
           map2 (\<lambda>t p. if t = c then real i + 1 else p) tmp predicted) ics p ! n = p ! n"
proof (induction ics arbitrary: p)
  case Nil
  then show ?case by simp
next
  case (Cons ic ics)
  obtain i c where ic: "ic = (i, c)" by (cases ic)
  let ?p = "map2 (\<lambda>t p. if t = c then real i + 1 else p) tmp p"
  have "length ?p = length tmp" using Cons.prems(1) by simp
  moreover have "?p ! n = p ! n" using Cons.prems ic by simp
  ultimately show ?case using Cons.IH[of ?p] Cons.prems ic by simp
qed

lemma relabel_step_hit:
  "length p = length tmp \<Longrightarrow> n < length tmp \<Longrightarrow> distinct cs \<Longrightarrow> r < length cs \<Longrightarrow>
   cs ! r = tmp ! n \<Longrightarrow>
   fold (\<lambda>(i, c) predicted.
           map2 (\<lambda>t p. if t = c then real i + 1 else p) tmp predicted)
        (enumerate s cs) p ! n = real (s + r) + 1"
proof (induction cs arbitrary: p s r)
  case Nil
  then show ?case by simp
next
  case (Cons c cs)
  let ?p = "map2 (\<lambda>t p. if t = c then real s + 1 else p) tmp p"
  have len: "length ?p = length tmp" using Cons.prems(1) by simp
  show ?case
  proof (cases r)
    case 0
    with Cons.prems have c: "c = tmp ! n" and notin: "tmp ! n \<notin> set cs" by auto
    have "tmp ! n \<notin> snd ` set (enumerate (Suc s) cs)"
      using notin by (auto simp: in_set_enumerate_eq)
    from relabel_step_keep[OF len Cons.prems(2) this]
    show ?thesis using Cons.prems(1,2) c 0 by simp
  next
    case (Suc r')
    with Cons.prems have "distinct cs" "r' < length cs" "cs ! r' = tmp ! n" by auto
    from Cons.IH[OF len Cons.prems(2) this, of "Suc s"]
    show ?thesis using Suc by simp
  qed
qed

lemma length_relabel: "length (relabel cs tmp) = length tmp"
  unfolding relabel_def by (rule relabel_step_length) simp

lemma relabel_nth:
  "distinct cs \<Longrightarrow> r < length cs \<Longrightarrow> n < length tmp \<Longrightarrow> cs ! r = tmp ! n \<Longrightarrow>
   relabel cs tmp ! n = real r + 1"
  unfolding relabel_def
  using relabel_step_hit[of "replicate (length tmp) 0" tmp n cs r 0] by simp

lemma relabel_step_nonneg:
  "\<forall>x\<in>set p. 0 \<le> x \<Longrightarrow>
   \<forall>x\<in>set (fold (\<lambda>(i, c) predicted.
             map2 (\<lambda>t p. if t = c then real i + 1 else p) tmp predicted) ics p). 0 \<le> x"
proof (induction ics arbitrary: p)
  case Nil
  then show ?case by simp
next
  case (Cons ic ics)
  obtain i c where ic: "ic = (i, c)" by (cases ic)
  have "\<forall>x\<in>set (map2 (\<lambda>t p. if t = c then real i + 1 else p) tmp p). 0 \<le> x"
    using Cons.prems by (auto dest: set_zip_rightD)
  from Cons.IH[OF this] show ?case using ic by simp
qed

lemma relabel_nonneg: "\<forall>x\<in>set (relabel cs tmp). 0 \<le> x"
  unfolding relabel_def by (rule relabel_step_nonneg) simp

subsection \<open>\<^verbatim>\<open>gmm_class_mask\<close>, hard segmentation\<close>

lemma hard_assign:
  assumes m: "shape m = s" "length (data m) = prod_list s"
    and v: "length v = count_true m"
  shows "\<exists>h. bool_assign (zeros s) m (vec v) = Inr h \<and> shape h = s \<and>
           length (data h) = prod_list s \<and>
           (\<forall>j<prod_list s. data h ! j = (if data m ! j then v ! masked_index m j else 0))"
proof -
  let ?h = "(zeros s)\<lparr>data := scatter (data m) (data (zeros s)) v\<rparr>"
  have "bool_assign (zeros s) m (vec v) = Inr ?h"
    using m v by (simp add: bool_assign_exact zeros_def)
  moreover have "shape ?h = s" "length (data ?h) = prod_list s"
    by (simp_all add: zeros_def length_scatter)
  moreover have "\<forall>j<prod_list s. data ?h ! j = (if data m ! j then v ! masked_index m j else 0)"
    using m v scatter_nth[of "data m" "data (zeros s)" v]
    by (simp add: zeros_def count_true_def masked_index_def)
  ultimately show ?thesis by blast
qed

lemma gmm_class_mask_hard_unfold:
  assumes "gmm_brain img bm = Inr brain" and "fit 3 brain = Inr gmm"
  shows "gmm_class_mask fit img bm contrast False True =
     bind (bool_assign (zeros (shape img)) (mask_data img bm)
             (vec (map (\<lambda>p. p + 1) (relabel (argsort (weights gmm)) (predict gmm brain)))))
       (\<lambda>msk. Inr (Hard msk))"
  using assms by (simp add: gmm_class_mask_def bind_def Let_def)

text \<open>
  Claim C1. In \<^verbatim>\<open>gmm_class_mask\<close> with \<^verbatim>\<open>return_wm_peak=False\<close> and
  \<^verbatim>\<open>hard_seg=True\<close>, the components are ranked by ascending weight; an included
  voxel whose predicted component has (0-based) position \<open>r\<close> in that order receives
  the 1-based rank \<open>r + 1\<close> plus 1 more, a value in \<open>{2, 3, 4}\<close>, and an excluded voxel
  holds 0.
\<close>

theorem gmm_hard_seg_values:
  assumes "wf_input img_data brain_mask"
    and "gmm_brain img_data brain_mask = Inr brain"
    and "fit 3 brain = Inr gmm"
    and "length (weights gmm) = 3"
    and "length (predict gmm brain) = count_true (mask_data img_data brain_mask)"
    and "\<forall>l\<in>set (predict gmm brain). l < 3"
  shows "sorted (map ((!) (weights gmm)) (argsort (weights gmm))) \<and>
         mset (argsort (weights gmm)) = mset [0..<3] \<and>
         (\<exists>hard. gmm_class_mask fit img_data brain_mask contrast False True = Inr (Hard hard) \<and>
            shape hard = shape img_data \<and> length (data hard) = length (data img_data) \<and>
            (\<forall>j<length (data img_data).
               if data (mask_data img_data brain_mask) ! j
               then (\<exists>r<3. argsort (weights gmm) ! r =
                             predict gmm brain ! masked_index (mask_data img_data brain_mask) j \<and>
                           data hard ! j = (real r + 1) + 1) \<and>
                    data hard ! j \<in> {2, 3, 4}
               else data hard ! j = 0))"
proof -
  let ?m = "mask_data img_data brain_mask"
  let ?cs = "argsort (weights gmm)"
  let ?tmp = "predict gmm brain"
  let ?v = "map (\<lambda>p. p + 1) (relabel ?cs ?tmp)"
  have n: "length (data img_data) = prod_list (shape img_data)"
    using assms(1) by (simp add: wf_input_def wf_ndarray_def)
  have m: "shape ?m = shape img_data" "length (data ?m) = prod_list (shape img_data)"
    using assms(1) n by (simp_all add: mask_data_shape mask_data_length)
  have v: "length ?v = count_true ?m"
    using assms(5) by (simp add: length_relabel)
  from hard_assign[OF m v] obtain h where
    h: "bool_assign (zeros (shape img_data)) ?m (vec ?v) = Inr h" "shape h = shape img_data"
      "length (data h) = length (data img_data)"
      "\<forall>j<length (data img_data). data h ! j =
         (if data ?m ! j then ?v ! masked_index ?m j else 0)"
    using n by auto
  have run: "gmm_class_mask fit img_data brain_mask contrast False True = Inr (Hard h)"
    using gmm_class_mask_hard_unfold[of img_data brain_mask brain fit gmm contrast]
      assms(2,3) h(1) by (simp add: bind_def)
  have pt: "if data ?m ! j
      then (\<exists>r<3. ?cs ! r = ?tmp ! masked_index ?m j \<and> data h ! j = (real r + 1) + 1) \<and>
           data h ! j \<in> {2, 3, 4}
      else data h ! j = 0" if j: "j < length (data img_data)" for j
  proof (cases "data ?m ! j")
    case False
    with h(4) j show ?thesis by simp
  next
    case True
    let ?n = "masked_index ?m j"
    have nlt: "?n < length ?tmp"
      using masked_index_less[of j ?m] j True m n assms(5) by simp
    then have "?tmp ! ?n < 3" using assms(6) by simp
    then have "?tmp ! ?n \<in> set ?cs"
      using set_argsort[of "weights gmm"] assms(4) by simp
    then obtain r where r: "r < length ?cs" "?cs ! r = ?tmp ! ?n"
      by (auto simp: in_set_conv_nth)
    have r3: "r < 3" using r(1) assms(4) by (simp add: length_argsort)
    have "relabel ?cs ?tmp ! ?n = real r + 1"
      using relabel_nth[OF distinct_argsort r(1) nlt r(2)] .
    then have val: "data h ! j = (real r + 1) + 1"
      using h(4) j True nlt by (simp add: length_relabel)
    from r3 have "r = 0 \<or> r = 1 \<or> r = 2" by arith
    with val have "data h ! j \<in> {2, 3, 4}" by auto
    with val r(2) r3 have "(\<exists>r<3. ?cs ! r = ?tmp ! ?n \<and> data h ! j = (real r + 1) + 1) \<and>
        data h ! j \<in> {2, 3, 4}" by blast
    then show ?thesis by (subst if_P[OF True])
  qed
  have "sorted (map ((!) (weights gmm)) ?cs)" by (rule sorted_argsort)
  moreover have "mset ?cs = mset [0..<3]"
    using mset_argsort[of "weights gmm"] assms(4) by simp
  moreover have "\<exists>hard. gmm_class_mask fit img_data brain_mask contrast False True =
        Inr (Hard hard) \<and>
      shape hard = shape img_data \<and> length (data hard) = length (data img_data) \<and>
      (\<forall>j<length (data img_data).
         if data ?m ! j
         then (\<exists>r<3. ?cs ! r = ?tmp ! masked_index ?m j \<and> data hard ! j = (real r + 1) + 1) \<and>
              data hard ! j \<in> {2, 3, 4}
         else data hard ! j = 0)"
    using run h(2,3) pt by blast
  ultimately show ?thesis by blast
qed

lemma toy_gmm_brain: "gmm_brain toy_img None = Inr [[10], [20], [30]]"
  by code_simp

lemma toy_gmm_fit: "toy_gmm 3 [[10], [20], [30]] = Inr toy_gmm_fitted"
  by (simp add: toy_gmm_def)

lemma toy_count: "count_true (mask_data toy_img None) = 3"
  by (simp add: toy_mask count_true_def)

theorem gmm_hard_seg_values_witness:
  "wf_input toy_img None \<and> gmm_brain toy_img None = Inr [[10], [20], [30]] \<and>
   toy_gmm 3 [[10], [20], [30]] = Inr toy_gmm_fitted \<and>
   length (weights toy_gmm_fitted) = 3 \<and>
   predict toy_gmm_fitted [[10], [20], [30]] = [1, 0, 2] \<and>
   (\<exists>hard. gmm_class_mask toy_gmm toy_img None ''t1'' False True = Inr (Hard hard) \<and>
      data hard ! 0 = 0 \<and> data hard ! 2 \<in> {2, 3, 4})"
proof -
  have l: "length (weights toy_gmm_fitted) = 3"
    by (simp add: toy_gmm_fitted_def)
  have p: "predict toy_gmm_fitted [[10], [20], [30]] = [1, 0, 2]"
    by (simp add: toy_gmm_fitted_def)
  have pl: "length (predict toy_gmm_fitted [[10], [20], [30]]) =
      count_true (mask_data toy_img None)"
    by (simp add: p toy_count)
  have pr: "\<forall>l\<in>set (predict toy_gmm_fitted [[10], [20], [30]]). l < 3"
    by (simp add: p)
  from gmm_hard_seg_values[of toy_img None "[[10], [20], [30]]" toy_gmm toy_gmm_fitted "''t1''",
      OF toy_wf toy_gmm_brain toy_gmm_fit l pl pr]
  obtain hard where
    h: "gmm_class_mask toy_gmm toy_img None ''t1'' False True = Inr (Hard hard)"
      "\<forall>j<length (data toy_img).
         if data (mask_data toy_img None) ! j
         then (\<exists>r<3. argsort (weights toy_gmm_fitted) ! r =
                 predict toy_gmm_fitted [[10], [20], [30]] !
                   masked_index (mask_data toy_img None) j \<and>
                 data hard ! j = (real r + 1) + 1) \<and>
              data hard ! j \<in> {2, 3, 4}
         else data hard ! j = 0"
    by blast
  have n: "(0::nat) < length (data toy_img)" "(2::nat) < length (data toy_img)"
    by (simp_all add: toy_img_def)
  have m0: "\<not> data (mask_data toy_img None) ! 0"
    and m2: "data (mask_data toy_img None) ! 2"
    by (simp_all add: toy_mask)
  from h(2)[rule_format, OF n(1)] m0 have "data hard ! 0 = 0"
    by simp
  moreover from h(2)[rule_format, OF n(2)] m2 have "data hard ! 2 \<in> {2, 3, 4}"
    by simp
  ultimately show ?thesis using toy_wf toy_gmm_brain toy_gmm_fit l p h(1) by blast
qed

subsection \<open>\<^verbatim>\<open>gmm_class_mask\<close>, the white-matter peak\<close>

lemma fold_max_first:
  fixes f :: "'a \<Rightarrow> real"
  shows "\<exists>i<length (x # r).
      fold (\<lambda>y b. if f b < f y then y else b) r x = (x # r) ! i \<and>
      (\<forall>j<i. f ((x # r) ! j) < f ((x # r) ! i)) \<and>
      (\<forall>j<length (x # r). f ((x # r) ! j) \<le> f ((x # r) ! i))"
proof (induction r rule: rev_induct)
  case Nil
  then show ?case by simp
next
  case (snoc y r)
  define qs where "qs = x # r"
  define ps where "ps = qs @ [y]"
  define b where "b = fold (\<lambda>y b. if f b < f y then y else b) r x"
  have ps: "x # r @ [y] = ps" by (simp add: ps_def qs_def)
  from snoc obtain i where i: "i < length qs" "b = qs ! i"
    "\<forall>j<i. f (qs ! j) < f (qs ! i)" "\<forall>j<length qs. f (qs ! j) \<le> f (qs ! i)"
    unfolding qs_def[symmetric] b_def[symmetric] by blast
  have app: "ps ! j = qs ! j" if "j < length qs" for j
    using that by (simp add: ps_def nth_append)
  have last: "ps ! length qs = y"
    by (simp add: ps_def)
  have len: "length ps = Suc (length qs)"
    by (simp add: ps_def)
  have res: "fold (\<lambda>y b. if f b < f y then y else b) (r @ [y]) x =
      (if f b < f y then y else b)"
    by (simp add: b_def)
  have "\<exists>k<length ps. (if f b < f y then y else b) = ps ! k \<and>
      (\<forall>j<k. f (ps ! j) < f (ps ! k)) \<and> (\<forall>j<length ps. f (ps ! j) \<le> f (ps ! k))"
  proof (cases "f b < f y")
    case True
    have lt: "f (ps ! j) < f (ps ! length qs)" if "j < length qs" for j
      using i(2,4) True that app[OF that] last by (metis le_less_trans)
    have "f (ps ! j) \<le> f (ps ! length qs)" if "j < length ps" for j
    proof (cases "j < length qs")
      case True
      then show ?thesis using lt by (simp add: less_imp_le)
    next
      case False
      with that len have "j = length qs" by simp
      then show ?thesis by simp
    qed
    with lt True last len show ?thesis
      by (intro exI[of _ "length qs"]) simp
  next
    case False
    have "f (ps ! j) \<le> f (ps ! i)" if "j < length ps" for j
    proof (cases "j < length qs")
      case True
      then show ?thesis using i(1,4) app by simp
    next
      case F: False
      with that len have "j = length qs" by simp
      then show ?thesis using False last app[OF i(1)] i(2) by simp
    qed
    moreover have "\<forall>j<i. f (ps ! j) < f (ps ! i)"
      using i(1,3) app by simp
    moreover have "(if f b < f y then y else b) = ps ! i"
      using False i(1,2) app by simp
    moreover have "i < length ps" using i(1) len by simp
    ultimately show ?thesis by blast
  qed
  then show ?case unfolding res ps .
qed

lemma py_max_key_first:
  assumes "ps \<noteq> []"
  shows "\<exists>i<length ps. py_max_key f ps = Inr (ps ! i) \<and>
           (\<forall>j<i. f (ps ! j) < f (ps ! i)) \<and> (\<forall>j<length ps. f (ps ! j) \<le> f (ps ! i))"
proof -
  from assms obtain x r where ps: "ps = x # r" by (cases ps) auto
  from fold_max_first[of x r f] show ?thesis
    unfolding ps py_max_key_def by simp
qed

lemma py_max_Max:
  assumes "xs \<noteq> []"
  shows "py_max xs = Inr (Max (set xs))"
proof -
  from py_max_key_first[OF assms, of "\<lambda>x. x"] obtain i where
    i: "i < length xs" "py_max xs = Inr (xs ! i)" "\<forall>j<length xs. xs ! j \<le> xs ! i"
    unfolding py_max_def by blast
  have "Max (set xs) = xs ! i"
  proof (rule Max_eqI)
    show "finite (set xs)" by simp
    show "xs ! i \<in> set xs" using i(1) by simp
    fix y assume "y \<in> set xs"
    then show "y \<le> xs ! i" using i(3) by (auto simp: in_set_conv_nth)
  qed
  with i(2) show ?thesis by simp
qed

lemma Max_nth:
  assumes "i < length (xs :: real list)" and "\<forall>j<length xs. xs ! j \<le> xs ! i"
  shows "Max (set xs) = xs ! i"
proof (rule Max_eqI)
  show "finite (set xs)" by simp
  show "xs ! i \<in> set xs" using assms(1) by simp
  fix y assume "y \<in> set xs"
  then show "y \<le> xs ! i" using assms(2) by (auto simp: in_set_conv_nth)
qed

lemma wm_peak_by_weight:
  assumes "length ms = n" and "length ws = n" and "0 < n"
  shows "\<exists>i<n. bind (py_max_key snd (zip ms ws)) (\<lambda>p. Inr (fst p)) = Inr (ms ! i) \<and>
           ws ! i = Max (set ws) \<and> (\<forall>j<i. ws ! j < ws ! i)"
proof -
  have ne: "zip ms ws \<noteq> []" using assms by (cases ms; cases ws) auto
  have len: "length (zip ms ws) = n" using assms by simp
  from py_max_key_first[OF ne, of snd] len obtain i where
    i: "i < n" "py_max_key snd (zip ms ws) = Inr (zip ms ws ! i)"
    "\<forall>j<i. snd (zip ms ws ! j) < snd (zip ms ws ! i)"
    "\<forall>j<n. snd (zip ms ws ! j) \<le> snd (zip ms ws ! i)"
    by auto
  have z: "zip ms ws ! j = (ms ! j, ws ! j)" if "j < n" for j
    using that assms by simp
  have "bind (py_max_key snd (zip ms ws)) (\<lambda>p. Inr (fst p)) = Inr (ms ! i)"
    using i(1,2) z by (simp add: bind_def)
  moreover have "\<forall>j<i. ws ! j < ws ! i"
    using i(1,3) z by simp
  moreover have "\<forall>j<length ws. ws ! j \<le> ws ! i"
    using i(1,4) z assms(2) by simp
  then have "ws ! i = Max (set ws)"
    using Max_nth[of i ws] i(1) assms(2) by simp
  ultimately show ?thesis using i(1) by blast
qed

lemma gmm_class_mask_peak_unfold:
  assumes "gmm_brain img bm = Inr brain" and "fit 3 brain = Inr gmm"
  shows "gmm_class_mask fit img bm contrast True hard_seg =
     bind (if contrast = ''t1'' then py_max (means gmm)
           else bind (py_max_key snd (zip (means gmm) (weights gmm))) (\<lambda>p. Inr (fst p)))
       (\<lambda>wm_peak. Inr (Scalar wm_peak))"
  using assms by (simp add: gmm_class_mask_def bind_def Let_def)

text \<open>
  Claim C2. With \<^verbatim>\<open>return_wm_peak=True\<close>, \<^verbatim>\<open>gmm_class_mask\<close> returns a scalar
  and no array: for contrast \<^verbatim>\<open>'t1'\<close> the maximum of the three fitted means, for
  every other contrast the mean of a component whose mixture weight is maximal.
\<close>

theorem gmm_wm_peak:
  assumes "gmm_brain img_data brain_mask = Inr brain"
    and "fit 3 brain = Inr gmm"
    and "length (means gmm) = 3" and "length (weights gmm) = 3"
  shows "gmm_class_mask fit img_data brain_mask ''t1'' True hard_seg =
           Inr (Scalar (Max (set (means gmm)))) \<and>
         (contrast \<noteq> ''t1'' \<longrightarrow>
            (\<exists>i<3. gmm_class_mask fit img_data brain_mask contrast True hard_seg =
                      Inr (Scalar (means gmm ! i)) \<and>
                    weights gmm ! i = Max (set (weights gmm))))"
proof -
  have "means gmm \<noteq> []" using assms(3) by auto
  then have "py_max (means gmm) = Inr (Max (set (means gmm)))"
    by (rule py_max_Max)
  then have t1: "gmm_class_mask fit img_data brain_mask ''t1'' True hard_seg =
      Inr (Scalar (Max (set (means gmm))))"
    using gmm_class_mask_peak_unfold[OF assms(1), of fit gmm "''t1''" hard_seg] assms(2)
    by (simp add: bind_def)
  from wm_peak_by_weight[OF assms(3,4)] obtain i where
    i: "i < 3" "bind (py_max_key snd (zip (means gmm) (weights gmm))) (\<lambda>p. Inr (fst p)) =
        Inr (means gmm ! i)" "weights gmm ! i = Max (set (weights gmm))"
    by auto
  have "gmm_class_mask fit img_data brain_mask contrast True hard_seg =
      Inr (Scalar (means gmm ! i))" if "contrast \<noteq> ''t1''"
    using gmm_class_mask_peak_unfold[OF assms(1), of fit gmm contrast hard_seg] assms(2)
      that i(2) by (simp add: bind_def)
  with i(1,3) t1 show ?thesis by blast
qed

theorem gmm_wm_peak_witness:
  "gmm_brain toy_img None = Inr [[10], [20], [30]] \<and>
   toy_gmm 3 [[10], [20], [30]] = Inr toy_gmm_fitted \<and>
   gmm_class_mask toy_gmm toy_img None ''t1'' True False = Inr (Scalar 30) \<and>
   (\<exists>i<3. gmm_class_mask toy_gmm toy_img None ''t2'' True False =
             Inr (Scalar (means toy_gmm_fitted ! i)) \<and>
           weights toy_gmm_fitted ! i = 1 / 2)"
proof -
  have l: "length (means toy_gmm_fitted) = 3" "length (weights toy_gmm_fitted) = 3"
    by (simp_all add: toy_gmm_fitted_def)
  have mx: "Max (set (means toy_gmm_fitted)) = 30" "Max (set (weights toy_gmm_fitted)) = 1 / 2"
    by (simp_all add: toy_gmm_fitted_def)
  have ne: "''t2'' \<noteq> ''t1''" by simp
  from gmm_wm_peak[of toy_img None "[[10], [20], [30]]" toy_gmm toy_gmm_fitted False "''t2''",
      OF toy_gmm_brain toy_gmm_fit l] ne mx
  show ?thesis using toy_gmm_brain toy_gmm_fit by simp
qed

text \<open>
  Claim C10. With \<^verbatim>\<open>return_wm_peak=True\<close> and a contrast other than \<^verbatim>\<open>'t1'\<close>,
  the returned peak is the mean of the first component, in the model's raw order, whose
  weight is maximal: ties are broken by raw index.
\<close>

theorem gmm_wm_peak_first_maximal:
  assumes "gmm_brain img_data brain_mask = Inr brain"
    and "fit 3 brain = Inr gmm"
    and "length (means gmm) = 3" and "length (weights gmm) = 3"
    and "contrast \<noteq> ''t1''"
    and "i < 3" and "weights gmm ! i = Max (set (weights gmm))"
    and "\<forall>j<i. weights gmm ! j \<noteq> Max (set (weights gmm))"
  shows "gmm_class_mask fit img_data brain_mask contrast True hard_seg =
           Inr (Scalar (means gmm ! i))"
proof -
  from wm_peak_by_weight[OF assms(3,4)] obtain k where
    k: "k < 3" "bind (py_max_key snd (zip (means gmm) (weights gmm))) (\<lambda>p. Inr (fst p)) =
        Inr (means gmm ! k)" "weights gmm ! k = Max (set (weights gmm))"
      "\<forall>j<k. weights gmm ! j < weights gmm ! k"
    by auto
  have "k = i"
  proof (rule ccontr)
    assume "k \<noteq> i"
    then consider "k < i" | "i < k" by arith
    then show False
    proof cases
      case 1
      with assms(8) k(3) show False by simp
    next
      case 2
      with k(4) assms(7) k(3) show False by auto
    qed
  qed
  with k(2) show ?thesis
    using gmm_class_mask_peak_unfold[OF assms(1), of fit gmm contrast hard_seg] assms(2,5)
    by (simp add: bind_def)
qed

theorem gmm_wm_peak_first_maximal_witness:
  "gmm_brain toy_img None = Inr [[10], [20], [30]] \<and>
   tied_gmm 3 [[10], [20], [30]] = Inr tied_gmm_fitted \<and>
   weights tied_gmm_fitted = [1/4, 3/8, 3/8] \<and> means tied_gmm_fitted = [10, 20, 30] \<and>
   gmm_class_mask tied_gmm toy_img None ''t2'' True False = Inr (Scalar 20)"
proof -
  have f: "tied_gmm 3 [[10], [20], [30]] = Inr tied_gmm_fitted"
    by (simp add: tied_gmm_def)
  have l: "length (means tied_gmm_fitted) = 3" "length (weights tied_gmm_fitted) = 3"
    by (simp_all add: tied_gmm_fitted_def)
  have w: "weights tied_gmm_fitted = [1/4, 3/8, 3/8]" "means tied_gmm_fitted = [10, 20, 30]"
    by (simp_all add: tied_gmm_fitted_def)
  have mx: "Max (set (weights tied_gmm_fitted)) = 3 / 8"
    by (simp add: w)
  have ne: "''t2'' \<noteq> ''t1''" by simp
  have i: "(1::nat) < 3" by simp
  have a: "weights tied_gmm_fitted ! 1 = Max (set (weights tied_gmm_fitted))"
    by (simp add: mx) (simp add: w)
  have b: "\<forall>j<1. weights tied_gmm_fitted ! j \<noteq> Max (set (weights tied_gmm_fitted))"
    by (simp add: mx) (simp add: w)
  from gmm_wm_peak_first_maximal[of toy_img None "[[10], [20], [30]]" tied_gmm tied_gmm_fitted
      "''t2''" 1 False, OF toy_gmm_brain f l ne i a b]
  show ?thesis using toy_gmm_brain f w by simp
qed

subsection \<open>The inclusion mask\<close>



subsection \<open>Hard segmentations: nonzero exactly on the mask\<close>

lemma count_filter_map:
  "length (filter P xs) = length (filter (\<lambda>b. b) (map P xs))"
  by (induction xs) simp_all

lemma nonzero_assign:
  assumes m: "shape m = s" "length (data m) = prod_list s"
    and run: "bool_assign (zeros s) m (vec v) = Inr h"
    and v: "\<forall>x\<in>set v. x \<noteq> 0"
  shows "shape h = s \<and> length (data h) = prod_list s \<and>
         (\<forall>j<prod_list s. (data h ! j \<noteq> 0) = data m ! j) \<and>
         length (filter (\<lambda>x. x \<noteq> 0) (data h)) = count_true m"
proof -
  define w where "w = (if length v = count_true m then v else replicate (count_true m) (hd v))"
  have same: "bool_assign (zeros s) m (vec v) =
     (if length v = count_true m
      then Inr ((zeros s)\<lparr>data := scatter (data m) (data (zeros s)) v\<rparr>)
      else if length v = 1
        then Inr ((zeros s)\<lparr>data :=
               scatter (data m) (data (zeros s)) (replicate (count_true m) (hd v))\<rparr>)
      else Inl ValueError)"
    using m by (intro bool_assign_same) (simp_all add: zeros_def)
  have h: "h = (zeros s)\<lparr>data := scatter (data m) (data (zeros s)) w\<rparr>"
    using run unfolding same w_def by (auto split: if_splits)
  have "length v = count_true m \<or> length v = 1"
    using run unfolding same by (auto split: if_splits)
  then have "v \<noteq> []  \<or> length v = count_true m" by auto
  have wl: "length w = count_true m" by (simp add: w_def)
  have wv: "\<forall>x\<in>set w. x \<noteq> 0"
  proof (cases "length v = count_true m")
    case True
    then show ?thesis using v by (simp add: w_def)
  next
    case False
    with \<open>length v = count_true m \<or> length v = 1\<close> have "v \<noteq> []" by auto
    then have "hd v \<noteq> 0" using v by simp
    with False show ?thesis by (simp add: w_def)
  qed
  have len: "length (data h) = prod_list s"
    by (simp add: h zeros_def length_scatter)
  have pt: "(data h ! j \<noteq> 0) = data m ! j" if j: "j < prod_list s" for j
  proof (cases "data m ! j")
    case True
    have "data h ! j = w ! masked_index m j"
      using m wl j True scatter_nth[of "data m" "data (zeros s)" w j]
      by (simp add: h zeros_def count_true_def masked_index_def)
    moreover have "masked_index m j < length w"
      using masked_index_less[of j m] j m True wl by simp
    ultimately show ?thesis using wv True by (metis nth_mem)
  next
    case False
    then show ?thesis
      using m wl j scatter_nth[of "data m" "data (zeros s)" w j]
      by (simp add: h zeros_def count_true_def)
  qed
  have "map (\<lambda>x. x \<noteq> 0) (data h) = data m"
    using len m pt by (intro nth_equalityI) simp_all
  then have "length (filter (\<lambda>x. x \<noteq> 0) (data h)) = count_true m"
    using count_filter_map[of "\<lambda>x. x \<noteq> 0" "data h"] by (simp add: count_true_def)
  with len pt show ?thesis by (simp add: h zeros_def)
qed

lemma fcm_fill_keeps:
  "shape m = shape a \<Longrightarrow> length (data m) = length (data a) \<Longrightarrow>
   fcm_fill rows m is a = Inr a' \<Longrightarrow> shape a' = shape a \<and> length (data a') = length (data a)"
proof (induction "is" arbitrary: a)
  case Nil
  then show ?case by simp
next
  case (Cons i "is")
  from Cons.prems(3) obtain row a1 where
    s: "assign_class a i m row = Inr a1" "fcm_fill rows m is a1 = Inr a'"
    by (auto simp: bind_def split: sum.splits)
  from assign_class_keeps[OF Cons.prems(1,2) s(1)]
  have k: "shape a1 = shape a" "length (data a1) = length (data a)" by simp_all
  from Cons.IH[OF _ _ s(2)] Cons.prems(1,2) k show ?case by simp
qed

lemma fcm_hard_nonzero:
  assumes wf: "wf_input img bm"
    and run: "fcm_class_mask cmeans img bm True = Inr (Hard h)"
  shows "shape h = shape img \<and> length (data h) = length (data img) \<and>
         (\<forall>j<length (data img). (data h ! j \<noteq> 0) = data (mask_data img bm) ! j) \<and>
         length (filter (\<lambda>x. x \<noteq> 0) (data h)) = count_true (mask_data img bm)"
proof -
  let ?m = "mask_data img bm"
  have n: "length (data img) = prod_list (shape img)"
    using wf by (simp add: wf_input_def wf_ndarray_def)
  have m: "shape ?m = shape img" "length (data ?m) = prod_list (shape img)"
    using wf n by (simp_all add: mask_data_shape mask_data_length)
  from run obtain rows msk where
    fill: "fcm_fill rows ?m [0..<3] (zeros3 (shape img)) = Inr msk"
    and chain: "bind (bool_index msk ?m) (\<lambda>sel.
        bind (argmax_axis1 sel) (\<lambda>am.
        bind (bool_assign (zeros (shape img)) ?m (am\<lparr>data := map (\<lambda>x. x + 1) (data am)\<rparr>))
          (\<lambda>tmp_mask. Inr (Hard tmp_mask)))) = Inr (Hard h)"
    unfolding fcm_class_mask_def Let_def
    by (auto simp: bind_def[of "fcm_data img bm"] bind_def[of "t1_mem_list _"]
        bind_def[of "fcm_fill _ _ _ _"] split: sum.splits)
  from fcm_fill_keeps[OF _ _ fill] m
  have k: "shape msk = shape img" "length (data msk) = prod_list (shape img)"
    by (simp_all add: zeros3_def)
  have asg: "bool_assign (zeros (shape img)) ?m
      (vec (map (\<lambda>r. real (argmax r) + 1) (select (data msk) (data ?m)))) = Inr h"
  proof -
    have "bind (bool_index msk ?m) (\<lambda>sel.
        bind (argmax_axis1 sel) (\<lambda>am.
        bind (bool_assign (zeros (shape img)) ?m (am\<lparr>data := map (\<lambda>x. x + 1) (data am)\<rparr>))
          (\<lambda>tmp_mask. Inr (Hard tmp_mask)))) =
        bind (bool_assign (zeros (shape img)) ?m
                (vec (map (\<lambda>r. real (argmax r) + 1) (select (data msk) (data ?m)))))
          (\<lambda>tmp_mask. Inr (Hard tmp_mask))"
      using m k by (intro hard_steps) simp_all
    with chain show ?thesis by (auto simp: bind_def split: sum.splits)
  qed
  have "\<forall>x\<in>set (map (\<lambda>r. real (argmax r) + 1) (select (data msk) (data ?m))). x \<noteq> 0"
  proof
    fix x assume "x \<in> set (map (\<lambda>r. real (argmax r) + 1) (select (data msk) (data ?m)))"
    then obtain r where "x = real (argmax r) + 1" by auto
    moreover have "0 \<le> real (argmax r)" by simp
    ultimately show "x \<noteq> 0" by linarith
  qed
  from nonzero_assign[OF m asg this] n show ?thesis by simp
qed

lemma gmm_hard_nonzero:
  assumes wf: "wf_input img bm"
    and run: "gmm_class_mask fit img bm contrast False True = Inr (Hard h)"
  shows "shape h = shape img \<and> length (data h) = length (data img) \<and>
         (\<forall>j<length (data img). (data h ! j \<noteq> 0) = data (mask_data img bm) ! j) \<and>
         length (filter (\<lambda>x. x \<noteq> 0) (data h)) = count_true (mask_data img bm)"
proof -
  let ?m = "mask_data img bm"
  have n: "length (data img) = prod_list (shape img)"
    using wf by (simp add: wf_input_def wf_ndarray_def)
  have m: "shape ?m = shape img" "length (data ?m) = prod_list (shape img)"
    using wf n by (simp_all add: mask_data_shape mask_data_length)
  from run obtain brain :: "real list list" and gmm :: gmm_fitted where
    asg: "bool_assign (zeros (shape img)) ?m
            (vec (map (\<lambda>p. p + 1) (relabel (argsort (weights gmm)) (predict gmm brain)))) = Inr h"
    by (auto simp: gmm_class_mask_def bind_def Let_def split: sum.splits)
  have "\<forall>x\<in>set (map (\<lambda>p. p + 1) (relabel (argsort (weights gmm)) (predict gmm brain))).
          x \<noteq> 0"
  proof
    fix x
    assume "x \<in> set (map (\<lambda>p. p + 1) (relabel (argsort (weights gmm)) (predict gmm brain)))"
    then obtain p where "p \<in> set (relabel (argsort (weights gmm)) (predict gmm brain))"
      "x = p + 1" by auto
    moreover from this(1) have "0 \<le> p" using relabel_nonneg by blast
    ultimately show "x \<noteq> 0" by linarith
  qed
  from nonzero_assign[OF m asg this] n show ?thesis by simp
qed

text \<open>
  Claim C7. In every hard segmentation either function returns, the number of nonzero
  voxels equals the number of true voxels of the inclusion mask: a voxel is nonzero
  exactly when it is included.
\<close>

theorem hard_seg_nonzero_count:
  assumes "wf_input img_data brain_mask"
  shows "(fcm_class_mask cmeans img_data brain_mask True = Inr (Hard h1) \<longrightarrow>
            length (filter (\<lambda>x. x \<noteq> 0) (data h1)) =
              count_true (mask_data img_data brain_mask) \<and>
            length (data h1) = length (data img_data) \<and>
            (\<forall>j<length (data img_data).
               (data h1 ! j \<noteq> 0) = data (mask_data img_data brain_mask) ! j)) \<and>
         (gmm_class_mask fit img_data brain_mask contrast False True = Inr (Hard h2) \<longrightarrow>
            length (filter (\<lambda>x. x \<noteq> 0) (data h2)) =
              count_true (mask_data img_data brain_mask) \<and>
            length (data h2) = length (data img_data) \<and>
            (\<forall>j<length (data img_data).
               (data h2 ! j \<noteq> 0) = data (mask_data img_data brain_mask) ! j))"
  using fcm_hard_nonzero[OF assms, of cmeans h1] gmm_hard_nonzero[OF assms, of fit contrast h2]
  by blast

lemma toy_fcm_hard:
  "fcm_class_mask toy_cmeans toy_img None True = Inr (Hard \<lparr>shape = [2, 2], data = [0, 1, 2, 3]\<rparr>)"
  by code_simp

lemma toy_gmm_hard:
  "gmm_class_mask toy_gmm toy_img None ''t1'' False True =
     Inr (Hard \<lparr>shape = [2, 2], data = [0, 2, 4, 3]\<rparr>)"
  by code_simp

theorem hard_seg_nonzero_count_witness:
  "wf_input toy_img None \<and>
   fcm_class_mask toy_cmeans toy_img None True =
     Inr (Hard \<lparr>shape = [2, 2], data = [0, 1, 2, 3]\<rparr>) \<and>
   gmm_class_mask toy_gmm toy_img None ''t1'' False True =
     Inr (Hard \<lparr>shape = [2, 2], data = [0, 2, 4, 3]\<rparr>) \<and>
   length (filter (\<lambda>x. x \<noteq> 0) [0, 1, 2, 3 :: real]) = count_true (mask_data toy_img None) \<and>
   length (filter (\<lambda>x. x \<noteq> 0) [0, 2, 4, 3 :: real]) = count_true (mask_data toy_img None)"
  using hard_seg_nonzero_count[OF toy_wf, of toy_cmeans "\<lparr>shape = [2, 2], data = [0, 1, 2, 3]\<rparr>"
      toy_gmm "''t1''" "\<lparr>shape = [2, 2], data = [0, 2, 4, 3]\<rparr>"]
    toy_fcm_hard toy_gmm_hard toy_wf
  by simp

subsection \<open>Soft outputs\<close>

lemma sum_list_perm:
  fixes f :: "'a \<Rightarrow> real"
  assumes "mset xs = mset ys"
  shows "sum_list (map f xs) = sum_list (map f ys)"
proof -
  have "sum_list (map f xs) = sum_mset (image_mset f (mset xs))"
    by (simp flip: sum_mset_sum_list)
  also have "\<dots> = sum_mset (image_mset f (mset ys))"
    using assms by simp
  also have "\<dots> = sum_list (map f ys)"
    by (simp flip: sum_mset_sum_list)
  finally show ?thesis .
qed

lemma sum_ordered_memberships:
  assumes "length (t1_cntr fit) = 3"
  shows "sum_list (ordered_memberships fit n) =
         t1_mem fit ! 0 ! n + t1_mem fit ! 1 ! n + t1_mem fit ! 2 ! n"
proof -
  have "sum_list (ordered_memberships fit n) =
      sum_list (map (\<lambda>c. t1_mem fit ! c ! n) [0..<3])"
    unfolding ordered_memberships_def
    using mset_argsort[of "t1_cntr fit"] assms by (intro sum_list_perm) simp
  then show ?thesis by (simp add: upt_3)
qed

lemma gmm_class_mask_soft_unfold:
  assumes "gmm_brain img bm = Inr brain" and "fit 3 brain = Inr gmm"
  shows "gmm_class_mask fit img bm contrast False False =
     bind (gmm_fill (predict_proba gmm brain) (mask_data img bm)
             (enumerate 0 (argsort (weights gmm))) (zeros3 (shape img)))
       (\<lambda>msk. Inr (Soft msk))"
  using assms by (simp add: gmm_class_mask_def bind_def Let_def)

lemma gmm_soft:
  assumes wf: "wf_input img bm"
    and b: "gmm_brain img bm = Inr brain" and f: "fit 3 brain = Inr gmm"
    and w: "length (weights gmm) = 3"
    and p: "length (predict_proba gmm brain) = count_true (mask_data img bm)"
      "\<forall>r\<in>set (predict_proba gmm brain). length r = 3"
  shows "\<exists>soft. gmm_class_mask fit img bm contrast False False = Inr (Soft soft) \<and>
           shape soft = shape img \<and> length (data soft) = length (data img) \<and>
           (\<forall>j<length (data img). data soft ! j =
              (if data (mask_data img bm) ! j
               then map ((!) (predict_proba gmm brain ! masked_index (mask_data img bm) j))
                      (argsort (weights gmm))
               else [0, 0, 0]))"
proof -
  let ?m = "mask_data img bm"
  let ?cs = "argsort (weights gmm)"
  have n: "length (data img) = prod_list (shape img)"
    using wf by (simp add: wf_input_def wf_ndarray_def)
  have m: "shape ?m = shape img" "length (data ?m) = prod_list (shape img)"
    using wf n by (simp_all add: mask_data_shape mask_data_length)
  have "length ?cs = 3" using w by (simp add: length_argsort)
  then obtain c0 c1 c2 where cs: "?cs = [c0, c1, c2]"
    by (metis list3_nth)
  have c: "c0 < 3" "c1 < 3" "c2 < 3"
    using set_argsort[of "weights gmm"] w unfolding cs by auto
  from gmm_fill_three[OF m p c] obtain out where
    out: "gmm_fill (predict_proba gmm brain) ?m (enumerate 0 [c0, c1, c2])
            (zeros3 (shape img)) = Inr out"
      "shape out = shape img" "length (data out) = prod_list (shape img)"
      "\<forall>j<prod_list (shape img). data out ! j =
         (if data ?m ! j
          then [predict_proba gmm brain ! masked_index ?m j ! c0,
                predict_proba gmm brain ! masked_index ?m j ! c1,
                predict_proba gmm brain ! masked_index ?m j ! c2]
          else [0, 0, 0])"
    by blast
  have "gmm_class_mask fit img bm contrast False False = Inr (Soft out)"
    unfolding gmm_class_mask_soft_unfold[of img bm brain fit gmm contrast, OF b f] cs out(1)
    by (simp add: bind_def)
  moreover have "\<forall>j<length (data img). data out ! j =
      (if data ?m ! j
       then map ((!) (predict_proba gmm brain ! masked_index ?m j)) ?cs else [0, 0, 0])"
    unfolding cs using out(4) n by simp
  ultimately show ?thesis using out(2,3) n by auto
qed

lemma sum_ordered_proba:
  assumes "length w = 3" and "length row = 3"
  shows "sum_list (map ((!) row) (argsort w)) = sum_list (row :: real list)"
proof -
  have "sum_list (map ((!) row) (argsort w)) = sum_list (map ((!) row) [0..<length row])"
    using mset_argsort[of w] assms by (intro sum_list_perm) simp
  then show ?thesis by (simp add: map_nth)
qed

lemma fcm_soft_sum:
  assumes wf: "wf_input img bm"
    and d: "fcm_data img bm = Inr d" and f: "cmeans d 3 2 (5 / 1000) 50 = Inr cfit"
    and len: "length (t1_cntr cfit) = 3" "length (t1_mem cfit) = 3"
    and rows: "\<forall>c<3. length (t1_mem cfit ! c) = count_true (mask_data img bm)"
    and one: "\<forall>n<count_true (mask_data img bm).
                t1_mem cfit ! 0 ! n + t1_mem cfit ! 1 ! n + t1_mem cfit ! 2 ! n = 1"
  shows "\<exists>soft. fcm_class_mask cmeans img bm False = Inr (Soft soft) \<and>
           shape soft = shape img \<and> length (data soft) = length (data img) \<and>
           (\<forall>j<length (data img).
              if data (mask_data img bm) ! j
              then length (data soft ! j) = 3 \<and> sum_list (data soft ! j) = 1
              else data soft ! j = [0, 0, 0])"
proof -
  let ?m = "mask_data img bm"
  from fcm_filled[OF wf len rows] obtain out where
    out: "bind (t1_mem_list cfit) (\<lambda>rows.
            fcm_fill rows ?m [0..<3] (zeros3 (shape img))) = Inr out"
      "shape out = shape img" "length (data out) = length (data img)"
      "\<forall>j<length (data img). data out ! j =
         (if data ?m ! j then ordered_memberships cfit (masked_index ?m j) else [0, 0, 0])"
    by blast
  have run: "fcm_class_mask cmeans img bm False = Inr (Soft out)"
    using fcm_class_mask_unfold[of img bm d cmeans cfit out False, OF d f out(1)] by simp
  have "if data ?m ! j
      then length (data out ! j) = 3 \<and> sum_list (data out ! j) = 1
      else data out ! j = [0, 0, 0]" if j: "j < length (data img)" for j
  proof (cases "data ?m ! j")
    case True
    have "masked_index ?m j < count_true ?m"
      using masked_index_less[of j ?m] j True mask_data_length[OF wf] by simp
    then have "sum_list (ordered_memberships cfit (masked_index ?m j)) = 1"
      using one by (simp add: sum_ordered_memberships[OF len(1)])
    moreover have "length (ordered_memberships cfit (masked_index ?m j)) = 3"
      using len(1) by (simp add: ordered_memberships_def length_argsort)
    ultimately show ?thesis using out(4) j True by simp
  next
    case False
    then show ?thesis using out(4) j by simp
  qed
  with run out(2,3) show ?thesis by blast
qed

lemma gmm_soft_sum:
  assumes wf: "wf_input img bm"
    and b: "gmm_brain img bm = Inr brain" and f: "fit 3 brain = Inr gmm"
    and w: "length (weights gmm) = 3"
    and p: "length (predict_proba gmm brain) = count_true (mask_data img bm)"
    and one: "\<forall>r\<in>set (predict_proba gmm brain). length r = 3 \<and> sum_list r = 1"
  shows "\<exists>soft. gmm_class_mask fit img bm contrast False False = Inr (Soft soft) \<and>
           shape soft = shape img \<and> length (data soft) = length (data img) \<and>
           (\<forall>j<length (data img).
              if data (mask_data img bm) ! j
              then length (data soft ! j) = 3 \<and> sum_list (data soft ! j) = 1
              else data soft ! j = [0, 0, 0])"
proof -
  let ?m = "mask_data img bm"
  let ?P = "predict_proba gmm brain"
  have p3: "\<forall>r\<in>set ?P. length r = 3" using one by simp
  from gmm_soft[of img bm brain fit gmm contrast, OF wf b f w p p3] obtain out where
    out: "gmm_class_mask fit img bm contrast False False = Inr (Soft out)"
      "shape out = shape img" "length (data out) = length (data img)"
      "\<forall>j<length (data img). data out ! j =
         (if data ?m ! j then map ((!) (?P ! masked_index ?m j)) (argsort (weights gmm))
          else [0, 0, 0])"
    by blast
  have "if data ?m ! j
      then length (data out ! j) = 3 \<and> sum_list (data out ! j) = 1
      else data out ! j = [0, 0, 0]" if j: "j < length (data img)" for j
  proof (cases "data ?m ! j")
    case True
    have "masked_index ?m j < length ?P"
      using masked_index_less[of j ?m] j True mask_data_length[OF wf] p by simp
    then have "?P ! masked_index ?m j \<in> set ?P" by simp
    with one have r: "length (?P ! masked_index ?m j) = 3" "sum_list (?P ! masked_index ?m j) = 1"
      by blast+
    have "sum_list (map ((!) (?P ! masked_index ?m j)) (argsort (weights gmm))) = 1"
      using sum_ordered_proba[OF w r(1)] r(2) by simp
    then show ?thesis using out(4) j True w by (simp add: length_argsort)
  next
    case False
    then show ?thesis using out(4) j by simp
  qed
  with out(1,2,3) show ?thesis by blast
qed

text \<open>
  Claim C8. In the soft output of either function, when the fitted model's memberships
  (fuzzy c-means) or posterior probabilities (mixture) sum to 1 for each voxel, the three
  class values of every included voxel sum to 1; the three class values of every excluded
  voxel are 0.
\<close>

theorem soft_classes_sum_to_one:
  assumes "wf_input img_data brain_mask"
  shows "(fcm_data img_data brain_mask = Inr d \<and> cmeans d 3 2 (5 / 1000) 50 = Inr cfit \<and>
          length (t1_cntr cfit) = 3 \<and> length (t1_mem cfit) = 3 \<and>
          (\<forall>c<3. length (t1_mem cfit ! c) = count_true (mask_data img_data brain_mask)) \<and>
          (\<forall>n<count_true (mask_data img_data brain_mask).
             t1_mem cfit ! 0 ! n + t1_mem cfit ! 1 ! n + t1_mem cfit ! 2 ! n = 1) \<longrightarrow>
          (\<exists>soft. fcm_class_mask cmeans img_data brain_mask False = Inr (Soft soft) \<and>
             shape soft = shape img_data \<and> length (data soft) = length (data img_data) \<and>
             (\<forall>j<length (data img_data).
                if data (mask_data img_data brain_mask) ! j
                then length (data soft ! j) = 3 \<and> sum_list (data soft ! j) = 1
                else data soft ! j = [0, 0, 0]))) \<and>
         (gmm_brain img_data brain_mask = Inr brain \<and> fit 3 brain = Inr gmm \<and>
          length (weights gmm) = 3 \<and>
          length (predict_proba gmm brain) = count_true (mask_data img_data brain_mask) \<and>
          (\<forall>r\<in>set (predict_proba gmm brain). length r = 3 \<and> sum_list r = 1) \<longrightarrow>
          (\<exists>soft. gmm_class_mask fit img_data brain_mask contrast False False = Inr (Soft soft) \<and>
             shape soft = shape img_data \<and> length (data soft) = length (data img_data) \<and>
             (\<forall>j<length (data img_data).
                if data (mask_data img_data brain_mask) ! j
                then length (data soft ! j) = 3 \<and> sum_list (data soft ! j) = 1
                else data soft ! j = [0, 0, 0])))"
  using fcm_soft_sum[OF assms, of d cmeans cfit] gmm_soft_sum[OF assms, of brain fit gmm contrast]
  by blast

theorem soft_classes_sum_to_one_witness:
  "wf_input toy_img None \<and>
   fcm_data toy_img None = Inr [[10, 20, 30]] \<and>
   toy_cmeans [[10, 20, 30]] 3 2 (5 / 1000) 50 = Inr toy_fit \<and>
   gmm_brain toy_img None = Inr [[10], [20], [30]] \<and>
   toy_gmm 3 [[10], [20], [30]] = Inr toy_gmm_fitted \<and>
   predict_proba toy_gmm_fitted [[10], [20], [30]] =
     [[1/10, 8/10, 1/10], [8/10, 1/10, 1/10], [1/10, 1/10, 8/10]] \<and>
   (\<exists>soft. fcm_class_mask toy_cmeans toy_img None False = Inr (Soft soft) \<and>
      sum_list (data soft ! 1) = 1 \<and> data soft ! 0 = [0, 0, 0]) \<and>
   (\<exists>soft. gmm_class_mask toy_gmm toy_img None ''t1'' False False = Inr (Soft soft) \<and>
      sum_list (data soft ! 1) = 1 \<and> data soft ! 0 = [0, 0, 0])"
proof -
  have cf: "toy_cmeans [[10, 20, 30]] 3 2 (5 / 1000) 50 = Inr toy_fit"
    by (simp add: toy_cmeans_def)
  have cl: "length (t1_cntr toy_fit) = 3" "length (t1_mem toy_fit) = 3"
    by (simp_all add: toy_fit_def)
  have cr: "\<forall>c<3. length (t1_mem toy_fit ! c) = count_true (mask_data toy_img None)"
    by (simp add: toy_fit_def toy_count nth_Cons')
  have c1: "\<forall>n<count_true (mask_data toy_img None).
      t1_mem toy_fit ! 0 ! n + t1_mem toy_fit ! 1 ! n + t1_mem toy_fit ! 2 ! n = 1"
    by (simp add: toy_fit_def toy_count nth_Cons')
  have gl: "length (weights toy_gmm_fitted) = 3"
    by (simp add: toy_gmm_fitted_def)
  have gp: "predict_proba toy_gmm_fitted [[10], [20], [30]] =
      [[1/10, 8/10, 1/10], [8/10, 1/10, 1/10], [1/10, 1/10, 8/10]]"
    by (simp add: toy_gmm_fitted_def)
  have gn: "length (predict_proba toy_gmm_fitted [[10], [20], [30]]) =
      count_true (mask_data toy_img None)"
    by (simp add: gp toy_count)
  have g1: "\<forall>r\<in>set (predict_proba toy_gmm_fitted [[10], [20], [30]]).
      length r = 3 \<and> sum_list r = 1"
    by (simp add: gp)
  note inst = soft_classes_sum_to_one[OF toy_wf, of "[[10, 20, 30]]" toy_cmeans toy_fit
      "[[10], [20], [30]]" toy_gmm toy_gmm_fitted "''t1''"]
  have n: "(0::nat) < length (data toy_img)" "(1::nat) < length (data toy_img)"
    by (simp_all add: toy_img_def)
  have m0: "\<not> data (mask_data toy_img None) ! 0" and m1: "data (mask_data toy_img None) ! 1"
    by (simp_all add: toy_mask)
  from inst toy_fcm_data cf cl cr c1 obtain s1 where
    s1: "fcm_class_mask toy_cmeans toy_img None False = Inr (Soft s1)"
      "\<forall>j<length (data toy_img).
         if data (mask_data toy_img None) ! j
         then length (data s1 ! j) = 3 \<and> sum_list (data s1 ! j) = 1
         else data s1 ! j = [0, 0, 0]"
    by blast
  from inst toy_gmm_brain toy_gmm_fit gl gn g1 obtain s2 where
    s2: "gmm_class_mask toy_gmm toy_img None ''t1'' False False = Inr (Soft s2)"
      "\<forall>j<length (data toy_img).
         if data (mask_data toy_img None) ! j
         then length (data s2 ! j) = 3 \<and> sum_list (data s2 ! j) = 1
         else data s2 ! j = [0, 0, 0]"
    by blast
  from s1(2)[rule_format, OF n(1)] s1(2)[rule_format, OF n(2)] m0 m1
  have a: "sum_list (data s1 ! 1) = 1 \<and> data s1 ! 0 = [0, 0, 0]" by simp
  from s2(2)[rule_format, OF n(1)] s2(2)[rule_format, OF n(2)] m0 m1
  have b: "sum_list (data s2 ! 1) = 1 \<and> data s2 ! 0 = [0, 0, 0]" by simp
  from a b s1(1) s2(1) toy_wf toy_fcm_data cf toy_gmm_brain toy_gmm_fit gp
  show ?thesis by blast
qed

subsection \<open>Empty inclusion masks\<close>

lemma select_none:
  "length xs = length bs \<Longrightarrow> filter (\<lambda>b. b) bs = [] \<Longrightarrow> select xs bs = []"
  by (induction xs bs rule: list_induct2) (auto simp: select_Cons select_def split: if_splits)

lemma empty_selection:
  assumes "wf_input img bm" and "count_true (mask_data img bm) = 0"
  shows "bool_index img (mask_data img bm) = Inr \<lparr>shape = [0], data = []\<rparr>"
  using assms mask_data_shape[OF assms(1)] mask_data_length[OF assms(1)]
    select_none[of "data img" "data (mask_data img bm)"]
  by (simp add: bool_index_same count_true_def)

text \<open>
  Claim C5 as stated fails: for an all-false inclusion mask \<^verbatim>\<open>gmm_class_mask\<close>
  reaches line 77 and calls the fitter on the empty vector. With a fitter that rejects
  it, the fitter's exception is what the call raises; with one that accepts it, the
  call returns normally. \<^verbatim>\<open>fcm_class_mask\<close> raises numpy's \<^verbatim>\<open>ValueError\<close>.
\<close>

theorem empty_mask_counterexample:
  "count_true (mask_data dark_img None) = 0 \<and>
   gmm_brain dark_img None = Inr [] \<and>
   gmm_class_mask toy_gmm dark_img None ''t1'' True False = Inl (FitterRaised ''no samples'') \<and>
   gmm_class_mask lenient_gmm dark_img None ''t1'' True False = Inr (Scalar 30) \<and>
   fcm_class_mask toy_cmeans dark_img None False = Inl ValueError"
  by code_simp

text \<open>
  Claim C5, amended. For an all-false inclusion mask neither function raises an error of
  its own kind: \<^verbatim>\<open>fcm_class_mask\<close> fails before the fitter is called, with the
  \<^verbatim>\<open>ValueError\<close> of \<^verbatim>\<open>reshape(-1, 0)\<close>; \<^verbatim>\<open>gmm_class_mask\<close> hands the empty
  vector to the fitter, and its outcome is the one that follows from the fitter's answer
  on it (an exception of the fitter propagates).
\<close>

theorem empty_mask_outcome:
  assumes "wf_input img_data brain_mask"
    and "count_true (mask_data img_data brain_mask) = 0"
  shows "fcm_class_mask cmeans img_data brain_mask hard_seg = Inl ValueError \<and>
         gmm_brain img_data brain_mask = Inr [] \<and>
         gmm_class_mask fit img_data brain_mask contrast return_wm_peak hard_seg =
           (case fit 3 [] of
              Inl x \<Rightarrow> Inl (FitterRaised x)
            | Inr gmm \<Rightarrow>
                gmm_class_mask (\<lambda>n brain. Inr gmm) img_data brain_mask contrast
                  return_wm_peak hard_seg)"
proof -
  note sel = empty_selection[OF assms]
  have "fcm_data img_data brain_mask = Inl ValueError"
    using sel assms(2) by (simp add: fcm_data_def bind_def reshape_rows_def Let_def)
  then have "fcm_class_mask cmeans img_data brain_mask hard_seg = Inl ValueError"
    by (simp add: fcm_class_mask_def bind_def Let_def)
  moreover have b: "gmm_brain img_data brain_mask = Inr []"
    using sel by (simp add: gmm_brain_def bind_def)
  moreover have "gmm_class_mask fit img_data brain_mask contrast return_wm_peak hard_seg =
           (case fit 3 [] of
              Inl x \<Rightarrow> Inl (FitterRaised x)
            | Inr gmm \<Rightarrow>
                gmm_class_mask (\<lambda>n brain. Inr gmm) img_data brain_mask contrast
                  return_wm_peak hard_seg)"
    using b by (simp add: gmm_class_mask_def bind_def Let_def split: sum.splits)
  ultimately show ?thesis by blast
qed

theorem empty_mask_outcome_witness:
  "wf_input dark_img None \<and> count_true (mask_data dark_img None) = 0 \<and>
   fcm_class_mask toy_cmeans dark_img None True = Inl ValueError \<and>
   gmm_class_mask toy_gmm dark_img None ''t2'' False True = Inl (FitterRaised ''no samples'')"
proof -
  have wf: "wf_input dark_img None"
    by (simp add: wf_input_def wf_ndarray_def dark_img_def)
  have c: "count_true (mask_data dark_img None) = 0"
    by (simp add: count_true_def mask_data_def gt0_def dark_img_def)
  have f: "toy_gmm 3 [] = Inl ''no samples''"
    by (simp add: toy_gmm_def)
  from empty_mask_outcome[OF wf c, of toy_cmeans True toy_gmm "''t2''" False] f wf c
  show ?thesis by simp
qed

subsection \<open>Brain masks of another shape\<close>

text \<open>
  Claim C6 as stated fails: the module does not compare the shapes. With an image of
  shape (2,) and a brain mask of shape (3,) the mask is computed, the extraction
  \<^verbatim>\<open>img_data[mask_data]\<close> is attempted, and the \<^verbatim>\<open>IndexError\<close> of that attempt is
  what both functions raise. With the image of shape (2, 2) and a brain mask of shape
  (2,) numpy applies the mask to the rows of the image and nothing is raised:
  \<^verbatim>\<open>gmm_class_mask\<close> fits the two intensities of the second row and returns a
  white-matter peak or a hard segmentation. With an image of shape (2,) and a brain mask
  of shape (0,) numpy does not compare the sizes and the selection is empty:
  \<^verbatim>\<open>fcm_class_mask\<close> raises the \<^verbatim>\<open>ValueError\<close> of \<^verbatim>\<open>reshape(-1, 0)\<close> and
  \<^verbatim>\<open>gmm_class_mask\<close> calls the fitter.
\<close>

theorem shape_mismatch_counterexample:
  "mask_data short_img (Some long_mask) = \<lparr>shape = [3], data = [True, True, True]\<rparr> \<and>
   bool_index short_img (mask_data short_img (Some long_mask)) = Inl IndexError \<and>
   fcm_class_mask toy_cmeans short_img (Some long_mask) False = Inl IndexError \<and>
   gmm_class_mask toy_gmm short_img (Some long_mask) ''t1'' True False = Inl IndexError \<and>
   shape row_mask = [2] \<and> shape toy_img = [2, 2] \<and>
   gmm_brain toy_img (Some row_mask) = Inr [[20], [30]] \<and>
   gmm_class_mask toy_gmm toy_img (Some row_mask) ''t1'' True False = Inr (Scalar 30) \<and>
   gmm_class_mask toy_gmm toy_img (Some row_mask) ''t1'' False True =
     Inr (Hard \<lparr>shape = [2, 2], data = [0, 0, 4, 3]\<rparr>) \<and>
   shape void_mask = [0] \<and> shape short_img = [2] \<and>
   gmm_brain short_img (Some void_mask) = Inr [] \<and>
   fcm_class_mask toy_cmeans short_img (Some void_mask) False = Inl ValueError \<and>
   gmm_class_mask toy_gmm short_img (Some void_mask) ''t1'' True False =
     Inl (FitterRaised ''no samples'') \<and>
   gmm_class_mask lenient_gmm short_img (Some void_mask) ''t1'' True False = Inr (Scalar 30)"
  by code_simp

text \<open>
  Claim C6, amended. For an image and a supplied brain mask of different shapes neither
  function checks the shapes or raises an error of its own: the mask is computed from
  the brain mask and the extraction of the masked intensities is attempted. When the
  mask has more dimensions than the image, or one of its axes has a nonzero size other
  than that of the image's axis, numpy's \<^verbatim>\<open>IndexError\<close> from that attempt is what both
  functions raise, whatever the fitter, which is not called. Otherwise (a mask with
  fewer dimensions than the image, or with an axis of size 0) the extraction succeeds:
  \<^verbatim>\<open>gmm_class_mask\<close> hands the extracted intensities to the fitter and
  \<^verbatim>\<open>fcm_class_mask\<close> hands them on reshaped, unless the reshape raises
  \<^verbatim>\<open>ValueError\<close>; the outcome is then the one that follows from the fitter's answer
  (an exception of the fitter propagates).
\<close>

theorem shape_mismatch_outcome:
  assumes "shape b \<noteq> shape img_data"
  shows "mask_data img_data (Some b) = gt0 b \<and>
     (if bool_mask_fits (shape b) (shape img_data)
      then (\<exists>sel. bool_index img_data (gt0 b) = Inr sel \<and>
              shape sel = count_true (gt0 b) # drop (length (shape b)) (shape img_data) \<and>
              gmm_brain img_data (Some b) = Inr (map (\<lambda>x. [x]) (data sel)) \<and>
              gmm_class_mask fit img_data (Some b) contrast return_wm_peak hard_seg =
                (case fit 3 (map (\<lambda>x. [x]) (data sel)) of
                   Inl x \<Rightarrow> Inl (FitterRaised x)
                 | Inr gmm \<Rightarrow>
                     gmm_class_mask (\<lambda>n brain. Inr gmm) img_data (Some b) contrast
                       return_wm_peak hard_seg) \<and>
              fcm_data img_data (Some b) = reshape_rows (data sel) (count_true (gt0 b)) \<and>
              fcm_class_mask cmeans img_data (Some b) hard_seg =
                (case reshape_rows (data sel) (count_true (gt0 b)) of
                   Inl e \<Rightarrow> Inl e
                 | Inr d \<Rightarrow>
                     (case cmeans d 3 2 (5 / 1000) 50 of
                        Inl x \<Rightarrow> Inl (FitterRaised x)
                      | Inr r \<Rightarrow>
                          fcm_class_mask (\<lambda>d c m e maxiter. Inr r) img_data (Some b)
                            hard_seg)))
      else bool_index img_data (gt0 b) = Inl IndexError \<and>
           fcm_class_mask cmeans img_data (Some b) hard_seg = Inl IndexError \<and>
           gmm_class_mask fit img_data (Some b) contrast return_wm_peak hard_seg =
             Inl IndexError)"
proof -
  have m: "mask_data img_data (Some b) = gt0 b"
    by (simp add: mask_data_def)
  have s: "shape (gt0 b) = shape b"
    by (simp add: gt0_def)
  show ?thesis
  proof (cases "bool_mask_fits (shape b) (shape img_data)")
    case False
    have i: "bool_index img_data (gt0 b) = Inl IndexError"
      using False by (simp add: bool_index_def s)
    have "fcm_data img_data (Some b) = Inl IndexError"
      using i by (simp add: fcm_data_def m bind_def Let_def)
    then have "fcm_class_mask cmeans img_data (Some b) hard_seg = Inl IndexError"
      by (simp add: fcm_class_mask_def bind_def Let_def)
    moreover have "gmm_brain img_data (Some b) = Inl IndexError"
      using i by (simp add: gmm_brain_def m bind_def)
    then have "gmm_class_mask fit img_data (Some b) contrast return_wm_peak hard_seg =
        Inl IndexError"
      by (simp add: gmm_class_mask_def bind_def Let_def)
    ultimately show ?thesis using m i False by simp
  next
    case True
    define sel where "sel = \<lparr>shape = count_true (gt0 b) # drop (length (shape b)) (shape img_data),
        data = concat (select
                 (split_rows (length (data (gt0 b)))
                    (prod_list (drop (length (shape b)) (shape img_data))) (data img_data))
                 (data (gt0 b)))\<rparr>"
    have i: "bool_index img_data (gt0 b) = Inr sel"
      using True by (simp add: bool_index_def s sel_def Let_def)
    have sh: "shape sel = count_true (gt0 b) # drop (length (shape b)) (shape img_data)"
      by (simp add: sel_def)
    have g: "gmm_brain img_data (Some b) = Inr (map (\<lambda>x. [x]) (data sel))"
      using i by (simp add: gmm_brain_def m bind_def)
    have f: "fcm_data img_data (Some b) = reshape_rows (data sel) (count_true (gt0 b))"
      using i by (simp add: fcm_data_def m bind_def Let_def)
    have gc: "gmm_class_mask fit img_data (Some b) contrast return_wm_peak hard_seg =
        (case fit 3 (map (\<lambda>x. [x]) (data sel)) of
           Inl x \<Rightarrow> Inl (FitterRaised x)
         | Inr gmm \<Rightarrow>
             gmm_class_mask (\<lambda>n brain. Inr gmm) img_data (Some b) contrast
               return_wm_peak hard_seg)"
      using g by (simp add: gmm_class_mask_def bind_def Let_def split: sum.splits)
    have fc: "fcm_class_mask cmeans img_data (Some b) hard_seg =
        (case reshape_rows (data sel) (count_true (gt0 b)) of
           Inl e \<Rightarrow> Inl e
         | Inr d \<Rightarrow>
             (case cmeans d 3 2 (5 / 1000) 50 of
                Inl x \<Rightarrow> Inl (FitterRaised x)
              | Inr r \<Rightarrow>
                  fcm_class_mask (\<lambda>d c m e maxiter. Inr r) img_data (Some b) hard_seg))"
      using f by (simp add: fcm_class_mask_def bind_def Let_def split: sum.splits)
    from i sh g gc f fc have "\<exists>sel. bool_index img_data (gt0 b) = Inr sel \<and>
        shape sel = count_true (gt0 b) # drop (length (shape b)) (shape img_data) \<and>
        gmm_brain img_data (Some b) = Inr (map (\<lambda>x. [x]) (data sel)) \<and>
        gmm_class_mask fit img_data (Some b) contrast return_wm_peak hard_seg =
          (case fit 3 (map (\<lambda>x. [x]) (data sel)) of
             Inl x \<Rightarrow> Inl (FitterRaised x)
           | Inr gmm \<Rightarrow>
               gmm_class_mask (\<lambda>n brain. Inr gmm) img_data (Some b) contrast
                 return_wm_peak hard_seg) \<and>
        fcm_data img_data (Some b) = reshape_rows (data sel) (count_true (gt0 b)) \<and>
        fcm_class_mask cmeans img_data (Some b) hard_seg =
          (case reshape_rows (data sel) (count_true (gt0 b)) of
             Inl e \<Rightarrow> Inl e
           | Inr d \<Rightarrow>
               (case cmeans d 3 2 (5 / 1000) 50 of
                  Inl x \<Rightarrow> Inl (FitterRaised x)
                | Inr r \<Rightarrow>
                    fcm_class_mask (\<lambda>d c m e maxiter. Inr r) img_data (Some b) hard_seg))"
      by blast
    with m True show ?thesis by simp
  qed
qed

lemma row_selection:
  "bool_index toy_img (gt0 row_mask) = Inr \<lparr>shape = [1, 2], data = [20, 30]\<rparr>"
  by code_simp

lemma row_peak:
  "gmm_class_mask (\<lambda>n brain. Inr toy_gmm_fitted) toy_img (Some row_mask) ''t1'' True False =
     Inr (Scalar 30)"
  by code_simp

theorem shape_mismatch_outcome_witness:
  "shape long_mask \<noteq> shape short_img \<and>
   fcm_class_mask toy_cmeans short_img (Some long_mask) True = Inl IndexError \<and>
   gmm_class_mask toy_gmm short_img (Some long_mask) ''t2'' False True = Inl IndexError \<and>
   shape row_mask \<noteq> shape toy_img \<and>
   gmm_brain toy_img (Some row_mask) = Inr [[20], [30]] \<and>
   gmm_class_mask toy_gmm toy_img (Some row_mask) ''t1'' True False = Inr (Scalar 30) \<and>
   shape void_mask \<noteq> shape short_img \<and>
   fcm_class_mask toy_cmeans short_img (Some void_mask) True = Inl ValueError"
proof -
  have a: "shape long_mask \<noteq> shape short_img"
    and na: "\<not> bool_mask_fits (shape long_mask) (shape short_img)"
    by (simp_all add: long_mask_def short_img_def bool_mask_fits_def)
  have b: "shape row_mask \<noteq> shape toy_img"
    and fb: "bool_mask_fits (shape row_mask) (shape toy_img)"
    by (simp_all add: row_mask_def toy_img_def bool_mask_fits_def)
  have c: "shape void_mask \<noteq> shape short_img"
    and fc: "bool_mask_fits (shape void_mask) (shape short_img)"
    by (simp_all add: void_mask_def short_img_def bool_mask_fits_def)
  from shape_mismatch_outcome[OF a, where cmeans = toy_cmeans and hard_seg = True
      and fit = toy_gmm and contrast = "''t2''" and return_wm_peak = False] na
  have 1: "fcm_class_mask toy_cmeans short_img (Some long_mask) True = Inl IndexError"
    "gmm_class_mask toy_gmm short_img (Some long_mask) ''t2'' False True = Inl IndexError"
    by simp_all
  from shape_mismatch_outcome[OF b, where fit = toy_gmm and contrast = "''t1''"
      and return_wm_peak = True and hard_seg = False and cmeans = toy_cmeans] fb
  obtain sel where
    sel: "bool_index toy_img (gt0 row_mask) = Inr sel"
      "gmm_brain toy_img (Some row_mask) = Inr (map (\<lambda>x. [x]) (data sel))"
      "gmm_class_mask toy_gmm toy_img (Some row_mask) ''t1'' True False =
         (case toy_gmm 3 (map (\<lambda>x. [x]) (data sel)) of
            Inl x \<Rightarrow> Inl (FitterRaised x)
          | Inr gmm \<Rightarrow>
              gmm_class_mask (\<lambda>n brain. Inr gmm) toy_img (Some row_mask) ''t1'' True False)"
    by auto
  from sel(1) have ds: "data sel = [20, 30]"
    by (auto simp: row_selection)
  have 2: "gmm_brain toy_img (Some row_mask) = Inr [[20], [30]]"
    using sel(2) by (simp add: ds)
  have 3: "gmm_class_mask toy_gmm toy_img (Some row_mask) ''t1'' True False = Inr (Scalar 30)"
    using sel(3) by (simp add: ds toy_gmm_def row_peak)
  from shape_mismatch_outcome[OF c, where cmeans = toy_cmeans and hard_seg = True
      and fit = toy_gmm and contrast = "''t1''" and return_wm_peak = True] fc
  obtain sel' where
    sel': "bool_index short_img (gt0 void_mask) = Inr sel'"
      "fcm_class_mask toy_cmeans short_img (Some void_mask) True =
         (case reshape_rows (data sel') (count_true (gt0 void_mask)) of
            Inl e \<Rightarrow> Inl e
          | Inr d \<Rightarrow>
              (case toy_cmeans d 3 2 (5 / 1000) 50 of
                 Inl x \<Rightarrow> Inl (FitterRaised x)
               | Inr r \<Rightarrow>
                   fcm_class_mask (\<lambda>d c m e maxiter. Inr r) short_img (Some void_mask) True))"
    by auto
  have "count_true (gt0 void_mask) = 0"
    by (simp add: count_true_def gt0_def void_mask_def)
  then have 4: "fcm_class_mask toy_cmeans short_img (Some void_mask) True = Inl ValueError"
    using sel'(2) by (simp add: reshape_rows_def)
  from a b c 1 2 3 4 show ?thesis by simp
qed

subsection \<open>Permuting the raw component order\<close>

lemma perm_facts:
  assumes "mset p = mset [0..<n]"
  shows "length p = n" and "set p = {0..<n}" and "distinct p"
proof -
  show "length p = n" using mset_eq_length[OF assms] by simp
  show "set p = {0..<n}" using mset_eq_setD[OF assms] by simp
  show "distinct p" using mset_eq_imp_distinct_iff[OF assms] by simp
qed

lemma position_nth: "distinct p \<Longrightarrow> i < length p \<Longrightarrow> position p (p ! i) = i"
proof (induction p arbitrary: i)
  case Nil
  then show ?case by simp
next
  case (Cons a p)
  show ?case
  proof (cases i)
    case 0
    then show ?thesis by (simp add: position_def)
  next
    case (Suc i')
    with Cons.prems have "p ! i' \<noteq> a" "distinct p" "i' < length p" by auto
    with Cons.IH[of i'] Suc show ?thesis by (simp add: position_def)
  qed
qed

lemma nth_position: "c \<in> set p \<Longrightarrow> p ! position p c = c"
  by (induction p) (auto simp: position_def)

lemma argsort_permuted:
  assumes p: "mset p = mset [0..<n]" and w: "length w = n" "distinct w"
  shows "map ((!) p) (argsort (map ((!) w) p)) = argsort w"
proof (rule map_sorted_distinct_set_unique[where f = "(!) w"])
  let ?w' = "map ((!) w) p"
  let ?xs = "map ((!) p) (argsort ?w')"
  note pf = perm_facts[OF p]
  have sx: "set ?xs = {0..<n}"
  proof -
    have "set ?xs = (!) p ` {0..<n}" using pf(1) by (simp add: set_argsort)
    also have "\<dots> = set p" using pf(1) by (auto simp: set_conv_nth)
    finally show ?thesis using pf(2) by simp
  qed
  have sy: "set (argsort w) = {0..<n}" using w(1) by (simp add: set_argsort)
  have inj: "inj_on ((!) w) {0..<n}"
    using w by (auto simp: inj_on_def nth_eq_iff_index_eq)
  show "inj_on ((!) w) (set ?xs \<union> set (argsort w))"
    using inj sx sy by simp
  have eq: "map ((!) w) ?xs = map ((!) ?w') (argsort ?w')"
    using pf(1) by (auto simp: set_argsort)
  show "sorted (map ((!) w) ?xs)"
    unfolding eq by (rule sorted_argsort)
  have "inj_on ((!) p) {0..<n}"
    using pf(1,3) by (auto simp: inj_on_def nth_eq_iff_index_eq)
  then have dx: "distinct ?xs"
    using pf(1) by (simp add: distinct_map distinct_argsort set_argsort)
  have ix: "inj_on ((!) w) (set ?xs)"
    unfolding sx by (rule inj)
  show "distinct (map ((!) w) ?xs)"
    by (rule iffD2[OF distinct_map conjI[OF dx ix]])
  show "sorted (map ((!) w) (argsort w))" by (rule sorted_argsort)
  show "distinct (map ((!) w) (argsort w))"
    using inj sy by (simp add: distinct_map distinct_argsort)
  show "set ?xs = set (argsort w)" using sx sy by simp
qed

lemma t1_mem_list_permuted:
  assumes p: "mset p = mset [0..<3]"
    and len: "length (t1_cntr cfit) = 3" "length (t1_mem cfit) = 3"
    and d: "distinct (t1_cntr cfit)"
  shows "t1_mem_list (permute_cmeans p cfit) = t1_mem_list cfit"
proof -
  note pf = perm_facts[OF p]
  let ?c' = "map ((!) (t1_cntr cfit)) p"
  have "t1_mem_list (permute_cmeans p cfit) =
      Inr (map ((!) (map ((!) (t1_mem cfit)) p)) (argsort ?c'))"
    using t1_mem_list_exact[of "permute_cmeans p cfit"] pf(1)
    by (simp add: permute_cmeans_def)
  also have "map ((!) (map ((!) (t1_mem cfit)) p)) (argsort ?c') =
      map ((!) (t1_mem cfit)) (map ((!) p) (argsort ?c'))"
    using pf(1) by (auto simp: set_argsort)
  also have "map ((!) p) (argsort ?c') = argsort (t1_cntr cfit)"
    using argsort_permuted[OF p len(1) d] .
  finally show ?thesis
    using t1_mem_list_exact[of cfit] len by simp
qed

lemma fcm_class_mask_same_rows:
  assumes "fcm_data img bm = Inr d"
    and "cmeans d 3 2 (5 / 1000) 50 = Inr f1" and "cmeans' d 3 2 (5 / 1000) 50 = Inr f2"
    and "t1_mem_list f2 = t1_mem_list f1"
  shows "fcm_class_mask cmeans' img bm hard_seg = fcm_class_mask cmeans img bm hard_seg"
  using assms by (simp add: fcm_class_mask_def bind_def Let_def)

lemma relabel_step_renamed:
  assumes "inj_on g (set cs \<union> set tmp)"
  shows "fold (\<lambda>(i, c) predicted.
             map2 (\<lambda>t p. if t = c then real i + 1 else p) (map g tmp) predicted)
           (enumerate s (map g cs)) p0 =
         fold (\<lambda>(i, c) predicted.
             map2 (\<lambda>t p. if t = c then real i + 1 else p) tmp predicted)
           (enumerate s cs) p0"
  using assms
proof (induction cs arbitrary: s p0)
  case Nil
  then show ?case by simp
next
  case (Cons c cs)
  have "map2 (\<lambda>t p. if t = g c then real s + 1 else p) (map g tmp) p0 =
      map2 (\<lambda>t p. if t = c then real s + 1 else p) tmp p0"
  proof -
    have "(g t = g c) = (t = c)" if "t \<in> set tmp" for t
      using Cons.prems that by (auto simp: inj_on_def)
    then show ?thesis
      by (auto simp: zip_map1 dest: set_zip_leftD)
  qed
  moreover have "inj_on g (set cs \<union> set tmp)"
    using Cons.prems by (auto simp: inj_on_def)
  ultimately show ?case using Cons.IH[of "Suc s"] by simp
qed

lemma relabel_renamed:
  "inj_on g (set cs \<union> set tmp) \<Longrightarrow> relabel (map g cs) (map g tmp) = relabel cs tmp"
  unfolding relabel_def using relabel_step_renamed[of g cs tmp 0] by simp

lemma argsort_permuted_position:
  assumes p: "mset p = mset [0..<n]" and w: "length w = n" "distinct w"
  shows "argsort (map ((!) w) p) = map (position p) (argsort w)"
proof -
  note pf = perm_facts[OF p]
  let ?cs' = "argsort (map ((!) w) p)"
  have "map (position p) (argsort w) = map (position p) (map ((!) p) ?cs')"
    using argsort_permuted[OF p w] by simp
  also have "\<dots> = map (\<lambda>c. c) ?cs'"
    unfolding map_map
  proof (rule map_cong[OF refl])
    fix c assume "c \<in> set ?cs'"
    then have "c < length p" using pf(1) by (simp add: set_argsort)
    then show "(position p \<circ> (!) p) c = c"
      using position_nth[OF pf(3)] by simp
  qed
  finally show ?thesis by simp
qed

lemma position_inj: "inj_on (position p) (set p)"
  by (rule inj_on_inverseI[where g = "(!) p"]) (rule nth_position)

lemma relabel_permuted:
  assumes p: "mset p = mset [0..<3]" and w: "length w = 3" "distinct w"
    and l: "\<forall>l\<in>set tmp. l < 3"
  shows "relabel (argsort (map ((!) w) p)) (map (position p) tmp) = relabel (argsort w) tmp"
proof -
  note pf = perm_facts[OF p]
  have "set (argsort w) \<union> set tmp \<subseteq> set p"
    using pf(2) w(1) l by (auto simp: set_argsort)
  then have "inj_on (position p) (set (argsort w) \<union> set tmp)"
    using position_inj[of p] by (rule inj_on_subset[rotated])
  from relabel_renamed[OF this] show ?thesis
    by (simp add: argsort_permuted_position[OF p w])
qed

lemma gmm_fill_same_columns:
  assumes "length cs' = length cs"
    and "\<forall>i<length cs. column P' (cs' ! i) = column P (cs ! i)"
  shows "gmm_fill P' m (enumerate s cs') z = gmm_fill P m (enumerate s cs) z"
  using assms
proof (induction cs' cs arbitrary: s z rule: list_induct2)
  case Nil
  then show ?case by simp
next
  case (Cons c' cs' c cs)
  have h: "column P' c' = column P c" using Cons.prems[rule_format, of 0] by simp
  have t: "\<forall>i<length cs. column P' (cs' ! i) = column P (cs ! i)"
    using Cons.prems by auto
  have ih: "gmm_fill P' m (enumerate (Suc s) cs') y = gmm_fill P m (enumerate (Suc s) cs) y"
    for y using Cons.IH[OF t, of "Suc s" y] .
  show ?case
    by (simp add: bind_def h ih cong: sum.case_cong)
qed

lemma column_permuted:
  assumes p: "mset p = mset [0..<3]"
    and rows: "\<forall>r\<in>set P. length r = 3" and c: "c < 3"
  shows "column (map (\<lambda>row. map ((!) row) p) P) c = column P (p ! c)"
proof -
  note pf = perm_facts[OF p]
  have pc: "p ! c < 3" using pf(1,2) c nth_mem[of c p] by auto
  have "column (map (\<lambda>row. map ((!) row) p) P) c =
      Inr (map (\<lambda>r. r ! c) (map (\<lambda>row. map ((!) row) p) P))"
    using pf(1) c by (simp add: column_def)
  also have "map (\<lambda>r. r ! c) (map (\<lambda>row. map ((!) row) p) P) = map (\<lambda>r. r ! (p ! c)) P"
    using pf(1) c by simp
  also have "Inr (map (\<lambda>r. r ! (p ! c)) P) = column P (p ! c)"
    using rows pc by (simp add: column_def)
  finally show ?thesis .
qed

lemma gmm_fill_permuted:
  assumes p: "mset p = mset [0..<3]" and w: "length w = 3" "distinct w"
    and rows: "\<forall>r\<in>set P. length r = 3"
  shows "gmm_fill (map (\<lambda>row. map ((!) row) p) P) m
           (enumerate 0 (argsort (map ((!) w) p))) z =
         gmm_fill P m (enumerate 0 (argsort w)) z"
proof (rule gmm_fill_same_columns)
  note pf = perm_facts[OF p]
  let ?cs' = "argsort (map ((!) w) p)"
  show "length ?cs' = length (argsort w)"
    using pf(1) w(1) by (simp add: length_argsort)
  show "\<forall>i<length (argsort w).
      column (map (\<lambda>row. map ((!) row) p) P) (?cs' ! i) = column P (argsort w ! i)"
  proof (intro allI impI)
    fix i assume i: "i < length (argsort w)"
    then have i3: "i < 3" using w(1) by (simp add: length_argsort)
    have c3: "?cs' ! i < 3"
      using nth_argsort_less[of i "map ((!) w) p"] pf(1) i3 by simp
    have "argsort w ! i = map ((!) p) ?cs' ! i"
      using argsort_permuted[OF p w] by simp
    also have "\<dots> = p ! (?cs' ! i)"
      using i3 pf(1) by (simp add: length_argsort)
    finally show "column (map (\<lambda>row. map ((!) row) p) P) (?cs' ! i) =
        column P (argsort w ! i)"
      using column_permuted[OF p rows c3] by simp
  qed
qed

text \<open>
  Claim C9 as stated fails when two components tie. Swapping the two components of equal
  weight (or of equal center) leaves the weights (centers) as they were, so the class
  order found is the same, while the labels, probability columns and membership rows
  have moved: the outputs differ.
\<close>

theorem permutation_counterexample:
  "weights (permute_gmm [0, 2, 1] tied_gmm_fitted) = weights tied_gmm_fitted \<and>
   gmm_class_mask tied_gmm toy_img None ''t1'' False True =
     Inr (Hard \<lparr>shape = [2, 2], data = [0, 2, 3, 4]\<rparr>) \<and>
   gmm_class_mask tied_gmm_swapped toy_img None ''t1'' False True =
     Inr (Hard \<lparr>shape = [2, 2], data = [0, 2, 4, 3]\<rparr>) \<and>
   t1_cntr (permute_cmeans [0, 2, 1] tied_fit) = t1_cntr tied_fit \<and>
   fcm_class_mask tied_cmeans toy_img None True =
     Inr (Hard \<lparr>shape = [2, 2], data = [0, 1, 2, 3]\<rparr>) \<and>
   fcm_class_mask tied_cmeans_swapped toy_img None True =
     Inr (Hard \<lparr>shape = [2, 2], data = [0, 1, 3, 2]\<rparr>)"
  by code_simp

lemma gmm_class_mask_permuted:
  assumes p: "mset p = mset [0..<3]"
    and b: "gmm_brain img bm = Inr brain"
    and f: "fit 3 brain = Inr gmm" and f': "fit' 3 brain = Inr (permute_gmm p gmm)"
    and w: "length (weights gmm) = 3" "distinct (weights gmm)"
    and l: "\<forall>l\<in>set (predict gmm brain). l < 3"
    and r: "\<forall>r\<in>set (predict_proba gmm brain). length r = 3"
  shows "gmm_class_mask fit' img bm contrast False hard_seg =
         gmm_class_mask fit img bm contrast False hard_seg"
proof -
  have h: "relabel (argsort (weights (permute_gmm p gmm))) (predict (permute_gmm p gmm) brain) =
      relabel (argsort (weights gmm)) (predict gmm brain)"
    using relabel_permuted[OF p w l] by (simp add: permute_gmm_def)
  have s: "gmm_fill (predict_proba (permute_gmm p gmm) brain) (mask_data img bm)
        (enumerate 0 (argsort (weights (permute_gmm p gmm)))) (zeros3 (shape img)) =
      gmm_fill (predict_proba gmm brain) (mask_data img bm)
        (enumerate 0 (argsort (weights gmm))) (zeros3 (shape img))"
    using gmm_fill_permuted[OF p w r] by (simp add: permute_gmm_def)
  show ?thesis
    using b f f' by (simp add: gmm_class_mask_def bind_def Let_def h s)
qed

text \<open>
  Claim C9, amended. When the three centers (fuzzy c-means) or the three weights (mixture)
  of the fitted model are pairwise distinct, permuting the raw component order of the
  model leaves the mask output of either function unchanged.
\<close>

theorem class_ordering_permutation_invariant:
  assumes "mset p = mset [0..<3]"
  shows "(fcm_data img_data brain_mask = Inr d \<and>
          cmeans d 3 2 (5 / 1000) 50 = Inr cfit \<and>
          cmeans' d 3 2 (5 / 1000) 50 = Inr (permute_cmeans p cfit) \<and>
          length (t1_cntr cfit) = 3 \<and> length (t1_mem cfit) = 3 \<and>
          distinct (t1_cntr cfit) \<longrightarrow>
          fcm_class_mask cmeans' img_data brain_mask hard_seg =
            fcm_class_mask cmeans img_data brain_mask hard_seg) \<and>
         (gmm_brain img_data brain_mask = Inr brain \<and>
          fit 3 brain = Inr gmm \<and> fit' 3 brain = Inr (permute_gmm p gmm) \<and>
          length (weights gmm) = 3 \<and> distinct (weights gmm) \<and>
          (\<forall>l\<in>set (predict gmm brain). l < 3) \<and>
          (\<forall>r\<in>set (predict_proba gmm brain). length r = 3) \<longrightarrow>
          gmm_class_mask fit' img_data brain_mask contrast False hard_seg =
            gmm_class_mask fit img_data brain_mask contrast False hard_seg)"
proof (intro conjI impI)
  assume a: "fcm_data img_data brain_mask = Inr d \<and>
          cmeans d 3 2 (5 / 1000) 50 = Inr cfit \<and>
          cmeans' d 3 2 (5 / 1000) 50 = Inr (permute_cmeans p cfit) \<and>
          length (t1_cntr cfit) = 3 \<and> length (t1_mem cfit) = 3 \<and>
          distinct (t1_cntr cfit)"
  then have "t1_mem_list (permute_cmeans p cfit) = t1_mem_list cfit"
    using t1_mem_list_permuted[OF assms] by blast
  with a show "fcm_class_mask cmeans' img_data brain_mask hard_seg =
      fcm_class_mask cmeans img_data brain_mask hard_seg"
    using fcm_class_mask_same_rows[of img_data brain_mask d cmeans cfit cmeans'
        "permute_cmeans p cfit" hard_seg] by blast
next
  assume a: "gmm_brain img_data brain_mask = Inr brain \<and>
          fit 3 brain = Inr gmm \<and> fit' 3 brain = Inr (permute_gmm p gmm) \<and>
          length (weights gmm) = 3 \<and> distinct (weights gmm) \<and>
          (\<forall>l\<in>set (predict gmm brain). l < 3) \<and>
          (\<forall>r\<in>set (predict_proba gmm brain). length r = 3)"
  then show "gmm_class_mask fit' img_data brain_mask contrast False hard_seg =
      gmm_class_mask fit img_data brain_mask contrast False hard_seg"
    using gmm_class_mask_permuted[of p img_data brain_mask brain fit gmm fit' contrast hard_seg]
      assms by blast
qed

theorem class_ordering_permutation_invariant_witness:
  "mset [2, 0, 1] = mset [0..<3] \<and>
   fcm_data toy_img None = Inr [[10, 20, 30]] \<and>
   toy_cmeans [[10, 20, 30]] 3 2 (5 / 1000) 50 = Inr toy_fit \<and>
   toy_cmeans_rotated [[10, 20, 30]] 3 2 (5 / 1000) 50 = Inr (permute_cmeans [2, 0, 1] toy_fit) \<and>
   distinct (t1_cntr toy_fit) \<and>
   fcm_class_mask toy_cmeans_rotated toy_img None False =
     fcm_class_mask toy_cmeans toy_img None False \<and>
   gmm_brain toy_img None = Inr [[10], [20], [30]] \<and>
   plain_gmm 3 [[10], [20], [30]] = Inr plain_gmm_fitted \<and>
   plain_gmm_rotated 3 [[10], [20], [30]] = Inr (permute_gmm [2, 0, 1] plain_gmm_fitted) \<and>
   distinct (weights plain_gmm_fitted) \<and>
   gmm_class_mask plain_gmm_rotated toy_img None ''t1'' False True =
     gmm_class_mask plain_gmm toy_img None ''t1'' False True"
proof -
  have p: "mset [2, 0, 1] = mset [0..<(3::nat)]"
    by (simp add: upt_3)
  have c: "toy_cmeans [[10, 20, 30]] 3 2 (5 / 1000) 50 = Inr toy_fit"
    "toy_cmeans_rotated [[10, 20, 30]] 3 2 (5 / 1000) 50 = Inr (permute_cmeans [2, 0, 1] toy_fit)"
    by (simp_all add: toy_cmeans_def toy_cmeans_rotated_def)
  have cl: "length (t1_cntr toy_fit) = 3" "length (t1_mem toy_fit) = 3"
    "distinct (t1_cntr toy_fit)"
    by (simp_all add: toy_fit_def)
  have g: "plain_gmm 3 [[10], [20], [30]] = Inr plain_gmm_fitted"
    "plain_gmm_rotated 3 [[10], [20], [30]] = Inr (permute_gmm [2, 0, 1] plain_gmm_fitted)"
    by (simp_all add: plain_gmm_def plain_gmm_rotated_def)
  have gl: "length (weights plain_gmm_fitted) = 3" "distinct (weights plain_gmm_fitted)"
    "\<forall>l\<in>set (predict plain_gmm_fitted [[10], [20], [30]]). l < 3"
    "\<forall>r\<in>set (predict_proba plain_gmm_fitted [[10], [20], [30]]). length r = 3"
    by (simp_all add: plain_gmm_fitted_def)
  note inst = class_ordering_permutation_invariant[OF p, of toy_img None "[[10, 20, 30]]"
      toy_cmeans toy_fit toy_cmeans_rotated False "[[10], [20], [30]]" plain_gmm
      plain_gmm_fitted plain_gmm_rotated "''t1''"]
  from inst toy_fcm_data c cl
  have a: "fcm_class_mask toy_cmeans_rotated toy_img None False =
      fcm_class_mask toy_cmeans toy_img None False" by blast
  note inst2 = class_ordering_permutation_invariant[OF p, of toy_img None "[[10, 20, 30]]"
      toy_cmeans toy_fit toy_cmeans_rotated True "[[10], [20], [30]]" plain_gmm
      plain_gmm_fitted plain_gmm_rotated "''t1''"]
  from inst2 toy_gmm_brain g gl
  have b: "gmm_class_mask plain_gmm_rotated toy_img None ''t1'' False True =
      gmm_class_mask plain_gmm toy_img None ''t1'' False True" by blast
  from p toy_fcm_data c cl(3) a toy_gmm_brain g gl(2) b show ?thesis by blast
qed

end
